theory Spec2Isabelle
  imports Main "HOL-Library.Sublist"
begin

section \<open>Strings\<close>

text \<open>
  Go strings are sequences of bytes and are modelled as \<open>string\<close>; text outside ASCII
  is held in its UTF-8 bytes. \<open>ToLower\<close> and \<open>EqualFold\<close> are written out for the
  case of the ASCII letters: \<open>A\<close>..\<open>Z\<close> go to \<open>a\<close>..\<open>z\<close> and every other byte is
  kept.
\<close>

definition NL :: string where
  "NL = [CHR 0x0A]"

definition lowerChar :: "char \<Rightarrow> char" where
  "lowerChar c = (let n = (of_char c :: nat) in if 65 \<le> n \<and> n \<le> 90 then char_of (n + 32) else c)"

definition ToLower :: "string \<Rightarrow> string" where
  "ToLower s = map lowerChar s"

text \<open>
  \<open>strings.TrimSpace\<close> removes from both ends the code points for which
  \<open>unicode.IsSpace\<close> holds: tab, line feed, vertical tab, form feed, carriage return,
  blank, U+0085, U+00A0, U+1680, U+2000 to U+200A, U+2028, U+2029, U+202F, U+205F and
  U+3000. \<open>spaces\<close> lists their UTF-8 encodings. At the front of a string the
  decoder reads one of these code points exactly when the bytes start with its encoding,
  and at the back exactly when they end with it; bytes that are not valid UTF-8 are read
  as U+FFFD, which is not white space. So trimming removes such encodings from the front
  as long as there is one, then from the back.
\<close>

definition spaces :: "string list" where
  "spaces =
     [[CHR 0x09], [CHR 0x0A], [CHR 0x0B], [CHR 0x0C], [CHR 0x0D], [CHR 0x20],
      [CHR 0xC2, CHR 0x85], [CHR 0xC2, CHR 0xA0],
      [CHR 0xE1, CHR 0x9A, CHR 0x80],
      [CHR 0xE2, CHR 0x80, CHR 0x80], [CHR 0xE2, CHR 0x80, CHR 0x81],
      [CHR 0xE2, CHR 0x80, CHR 0x82], [CHR 0xE2, CHR 0x80, CHR 0x83],
      [CHR 0xE2, CHR 0x80, CHR 0x84], [CHR 0xE2, CHR 0x80, CHR 0x85],
      [CHR 0xE2, CHR 0x80, CHR 0x86], [CHR 0xE2, CHR 0x80, CHR 0x87],
      [CHR 0xE2, CHR 0x80, CHR 0x88], [CHR 0xE2, CHR 0x80, CHR 0x89],
      [CHR 0xE2, CHR 0x80, CHR 0x8A],
      [CHR 0xE2, CHR 0x80, CHR 0xA8], [CHR 0xE2, CHR 0x80, CHR 0xA9],
      [CHR 0xE2, CHR 0x80, CHR 0xAF],
      [CHR 0xE2, CHR 0x81, CHR 0x9F],
      [CHR 0xE3, CHR 0x80, CHR 0x80]]"

text \<open>\<open>strip ps s\<close> removes from the front of \<open>s\<close> the members of \<open>ps\<close>, as long as
  \<open>s\<close> starts with one.\<close>

function strip :: "string list \<Rightarrow> string \<Rightarrow> string" where
  "strip ps s =
     (case find (\<lambda>p. p \<noteq> [] \<and> prefix p s) ps of
        Some p \<Rightarrow> strip ps (drop (length p) s)
      | None \<Rightarrow> s)"
  by pat_completeness auto
termination
  by (relation "measure (\<lambda>(ps, s). length s)") (auto simp: find_Some_iff prefix_def)

declare strip.simps [simp del]

definition TrimSpace :: "string \<Rightarrow> string" where
  "TrimSpace s = rev (strip (map rev spaces) (rev (strip spaces s)))"

definition EqualFold :: "string \<Rightarrow> string \<Rightarrow> bool" where
  "EqualFold a b = (ToLower a = ToLower b)"

fun Contains :: "string \<Rightarrow> string \<Rightarrow> bool" where
  "Contains [] sub = (sub = [])"
| "Contains (c # cs) sub = (prefix sub (c # cs) \<or> Contains cs sub)"

text \<open>\<open>strings.SplitN(s, "@", 2)\<close>: the whole string when it has no \<open>@\<close>, otherwise
  the text before the first \<open>@\<close> and the text after it.\<close>

definition SplitN_at2 :: "string \<Rightarrow> string list" where
  "SplitN_at2 s =
     (case dropWhile (\<lambda>c. c \<noteq> CHR ''@'') s of
        [] \<Rightarrow> [s]
      | _ # rest \<Rightarrow> [takeWhile (\<lambda>c. c \<noteq> CHR ''@'') s, rest])"

section \<open>Data model\<close>

text \<open>\<open>MultiArchMetadata\<close>, the record kept in the baseline file. \<open>UpdatedAt\<close> is a
  \<open>time.Time\<close>, held as nanoseconds since the epoch.\<close>

record MultiArchMetadata =
  Repository :: string
  Tag :: string
  ManifestList :: string
  Digests :: "string \<rightharpoonup> string"
  UpdatedAt :: nat

text \<open>One element of \<open>manifests\<close> in the output of \<open>docker manifest inspect\<close>.\<close>

record manifest_entry =
  Digest :: string
  Architecture :: string
  OS :: string

text \<open>
  A file is held up to JSON decoding: \<open>Document m\<close> is content that \<open>json.Unmarshal\<close>
  decodes to \<open>m\<close>, \<open>Malformed e\<close> is content that it rejects with the error \<open>e\<close> (an
  empty or cut-off file is rejected with \<open>unexpected end of JSON input\<close>).
  \<open>Unreadable e\<close> is a path that exists and whose read fails with \<open>e\<close>.
\<close>

datatype file_data = Document MultiArchMetadata | Malformed string

datatype file_node = Readable file_data | Unreadable string

datatype read_error = NotExist | ReadErr string

text \<open>The replies of the docker client: \<open>CombinedOutput\<close> gives an error with the
  output, or the output; the manifest is held up to JSON decoding.\<close>

datatype inspect_reply = InspectFailed string string | InspectOutput string

datatype manifest_reply =
    ManifestFailed string string
  | ManifestUnparsable string
  | ManifestParsed "manifest_entry list"

text \<open>What the program prints: one event for each call of \<open>fmt.Println\<close> or
  \<open>fmt.Printf\<close>, the format with its arguments (the final line feed left out);
  \<open>Len m\<close> stands for the number \<open>len(m)\<close> of entries of a map.\<close>

datatype arg = Str string | Num nat | Len "string \<rightharpoonup> string"

datatype event = Printf string "arg list"

text \<open>
  The state the operations run in. \<open>docker_inspect\<close> is the local image store as
  \<open>docker inspect\<close> reports it; a successful \<open>docker pull\<close> replaces it.
  \<open>create_fault\<close> and \<open>encode_fault\<close> are the errors of \<open>os.Create\<close> and of
  \<open>Encoder.Encode\<close> on the baseline file, \<open>None\<close> when they succeed. \<open>clock\<close> is
  \<open>time.Now()\<close> in nanoseconds. \<open>calls\<close> is a log kept by the composite operation:
  the operations it called, in order, each with the error it returned.
\<close>

record world =
  GOARCH :: string
  docker_lookpath :: "string option"
  docker_pull :: "string \<Rightarrow> string + (string \<Rightarrow> inspect_reply)"
  docker_inspect :: "string \<Rightarrow> inspect_reply"
  docker_manifest_inspect :: "string \<Rightarrow> manifest_reply"
  files :: "string \<rightharpoonup> file_node"
  create_fault :: "string option"
  encode_fault :: "string option"
  clock :: nat
  stdout :: "event list"
  calls :: "(string \<times> string option) list"

definition say :: "event \<Rightarrow> world \<Rightarrow> world" where
  "say e w = w\<lparr>stdout := stdout w @ [e]\<rparr>"

definition Println :: "string \<Rightarrow> event" where
  "Println s = Printf s []"

section \<open>SrcDigest\<close>

definition upstreamImage :: string where
  "upstreamImage = ''factoriotools/factorio''"

definition factorioTag :: string where
  "factorioTag = ''2.0.69''"

definition baselineFile :: string where
  "baselineFile = ''baseline.yaml''"

definition fullImage :: string where
  "fullImage = upstreamImage @ '':'' @ factorioTag"

definition isValidArch :: "string \<Rightarrow> bool" where
  "isValidArch arch =
     (let a = ToLower (TrimSpace arch) in
      if a = ''amd64'' \<or> a = ''arm64'' then True else False)"

definition getLocalArch :: "world \<Rightarrow> string" where
  "getLocalArch w =
     (if GOARCH w = ''arm64'' then ''arm64''
      else if GOARCH w = ''amd64'' then ''amd64''
      else GOARCH w)"

definition ensureDockerAvailable :: "world \<Rightarrow> string option" where
  "ensureDockerAvailable w =
     (case docker_lookpath w of
        Some e \<Rightarrow> Some (''docker not found in PATH: '' @ e)
      | None \<Rightarrow> None)"

definition getLocalManifestListDigest :: "string \<Rightarrow> world \<Rightarrow> string + string" where
  "getLocalManifestListDigest img w =
     (case docker_inspect w img of
        InspectFailed e out \<Rightarrow>
          Inl (''failed to inspect manifest list digest: '' @ e @ NL @ out)
      | InspectOutput out \<Rightarrow>
          (case SplitN_at2 (TrimSpace out) of
             [_, d] \<Rightarrow> Inr d
           | _ \<Rightarrow> Inl (''unexpected digest format: '' @ out)))"

definition getLocalArchDigest :: "string \<Rightarrow> world \<Rightarrow> string + string" where
  "getLocalArchDigest img w =
     (case docker_manifest_inspect w img of
        ManifestFailed e out \<Rightarrow> Inl (''failed to inspect manifest: '' @ e @ NL @ out)
      | ManifestUnparsable e \<Rightarrow> Inl (''failed to parse manifest JSON: '' @ e)
      | ManifestParsed ms \<Rightarrow>
          (let localArch = getLocalArch w in
           case find (\<lambda>m. EqualFold (Architecture m) localArch) ms of
             Some m \<Rightarrow> Inr (Digest m)
           | None \<Rightarrow> Inl (''no digest found for architecture '' @ localArch)))"

definition ReadFile :: "world \<Rightarrow> string \<Rightarrow> read_error + file_data" where
  "ReadFile w p =
     (case files w p of
        None \<Rightarrow> Inl NotExist
      | Some (Unreadable e) \<Rightarrow> Inl (ReadErr e)
      | Some (Readable d) \<Rightarrow> Inr d)"

definition Unmarshal :: "file_data \<Rightarrow> string + MultiArchMetadata" where
  "Unmarshal d = (case d of Document m \<Rightarrow> Inr m | Malformed e \<Rightarrow> Inl e)"

text \<open>The content of a file that \<open>os.Create\<close> has just truncated.\<close>

definition empty_file :: file_data where
  "empty_file = Malformed ''unexpected end of JSON input''"

subsection \<open>Show\<close>

text \<open>\<open>Show\<close> tests the read error only for \<open>os.ErrNotExist\<close>; after any other read
  error it decodes the empty data it was given.\<close>

definition Show :: "world \<Rightarrow> string option \<times> world" where
  "Show w0 =
     (let localArch = getLocalArch w0;
          w = say (Printf ''Fetching Factorio digests for architecture: %s'' [Str localArch]) w0
      in case ReadFile w baselineFile of
           Inl NotExist \<Rightarrow> (None, say (Println ''No baseline found.'') w)
         | r \<Rightarrow>
             (case Unmarshal (case r of Inr d \<Rightarrow> d | Inl _ \<Rightarrow> empty_file) of
                Inl e \<Rightarrow> (Some (''failed to parse baseline file: '' @ e), w)
              | Inr meta \<Rightarrow>
                  (let w = say (Printf ''Manifest list digest: %s'' [Str (ManifestList meta)]) w
                   in case Digests meta localArch of
                        Some digest \<Rightarrow>
                          (None, say (Printf ''Stored digest for %s: %s'' [Str localArch, Str digest]) w)
                      | None \<Rightarrow>
                          (None, say (Printf ''No digest found for %s in baseline.'' [Str localArch]) w))))"

subsection \<open>Compare\<close>

definition Compare :: "world \<Rightarrow> string option \<times> world" where
  "Compare w0 =
     (let localArch = getLocalArch w0;
          w = say (Printf ''Comparing digests for %s (%s)'' [Str localArch, Str fullImage]) w0
      in case ensureDockerAvailable w of
           Some e \<Rightarrow> (Some e, w)
         | None \<Rightarrow>
      (case getLocalManifestListDigest fullImage w of
           Inl e \<Rightarrow> (Some e, w)
         | Inr currentList \<Rightarrow>
      (case getLocalArchDigest fullImage w of
           Inl e \<Rightarrow> (Some e, w)
         | Inr currentArch \<Rightarrow>
      (case ReadFile w baselineFile of
           Inl NotExist \<Rightarrow> (Some ''no baseline file found'', w)
         | Inl (ReadErr e) \<Rightarrow> (Some (''cannot read baseline file: '' @ e), w)
         | Inr data \<Rightarrow>
      (case Unmarshal data of
           Inl e \<Rightarrow> (Some (''failed to parse baseline: '' @ e), w)
         | Inr meta \<Rightarrow>
             if ManifestList meta \<noteq> currentList then
               (Some ''manifest list digest changed'',
                say (Printf (''Manifest list updated.'' @ NL @ ''Old: %s'' @ NL @ ''New: %s'')
                       [Str (ManifestList meta), Str currentList]) w)
             else
               (case Digests meta localArch of
                  Some oldArchDigest \<Rightarrow>
                    if oldArchDigest \<noteq> currentArch then
                      (Some (''digest changed for '' @ localArch),
                       say (Printf (''Architecture digest updated for %s.'' @ NL @ ''Old: %s'' @ NL @ ''New: %s'')
                              [Str localArch, Str oldArchDigest, Str currentArch]) w)
                    else (None, say (Println ''Baseline is up to date.'') w)
                | None \<Rightarrow>
                    (Some (''missing digest for '' @ localArch),
                     say (Printf (''No digest found for %s in baseline.'' @ NL @ ''Current digest: %s'')
                            [Str localArch, Str currentArch]) w)))))))"

subsection \<open>Sync\<close>

text \<open>\<open>time.Now().UTC().Truncate(time.Second)\<close>.\<close>

definition Truncate_Second :: "nat \<Rightarrow> nat" where
  "Truncate_Second t = t - t mod 1000000000"

text \<open>The block that reads the previous baseline: every entry of its \<open>Digests\<close> is
  assigned into the new record; a file that cannot be read or decoded is passed over.\<close>

definition carry_forward :: "world \<Rightarrow> MultiArchMetadata \<Rightarrow> MultiArchMetadata" where
  "carry_forward w meta =
     (case ReadFile w baselineFile of
        Inr data \<Rightarrow>
          (case Unmarshal data of
             Inr existing \<Rightarrow> meta\<lparr>Digests := Digests meta ++ Digests existing\<rparr>
           | Inl _ \<Rightarrow> meta)
      | Inl _ \<Rightarrow> meta)"

text \<open>The loop over the platforms of the fetched manifest.\<close>

fun merge_manifests :: "manifest_entry list \<Rightarrow> MultiArchMetadata \<Rightarrow> world \<Rightarrow> MultiArchMetadata \<times> world" where
  "merge_manifests [] meta w = (meta, w)"
| "merge_manifests (m # ms) meta w =
     (let arch = TrimSpace (ToLower (Architecture m)) in
      if \<not> isValidArch arch then
        merge_manifests ms meta
          (say (Printf ''Skipping unsupported arch %q (%s)'' [Str arch, Str (Digest m)]) w)
      else merge_manifests ms (meta\<lparr>Digests := (Digests meta)(arch \<mapsto> Digest m)\<rparr>) w)"

text \<open>The end of \<open>Sync\<close>: \<open>os.Create\<close> opens the baseline file, which truncates it in
  place, and the encoder writes the record into it. The closing listing of the map,
  whose order Go leaves open, is not recorded.\<close>

definition persist :: "MultiArchMetadata \<Rightarrow> world \<Rightarrow> string option \<times> world" where
  "persist meta w =
     (case create_fault w of
        Some e \<Rightarrow> (Some (''failed to write baseline file: '' @ e), w)
      | None \<Rightarrow>
          (let w = w\<lparr>files := (files w)(baselineFile \<mapsto> Readable empty_file)\<rparr> in
           case encode_fault w of
             Some e \<Rightarrow> (Some (''failed to encode baseline metadata: '' @ e), w)
           | None \<Rightarrow>
               (None,
                say (Printf ''Baseline updated for Factorio %s with manifest list %s and %d architectures.''
                       [Str factorioTag, Str (ManifestList meta), Len (Digests meta)])
                  (w\<lparr>files := (files w)(baselineFile \<mapsto> Readable (Document meta))\<rparr>))))"

text \<open>\<open>Sync\<close>. The directory made by \<open>os.MkdirAll\<close>, whose error is dropped, and the
  output of \<open>docker pull\<close> itself are outside the state.\<close>

definition Sync :: "world \<Rightarrow> string option \<times> world" where
  "Sync w0 =
     (let localArch = getLocalArch w0;
          w = say (Printf ''Syncing Factorio image %s for architecture: %s'' [Str fullImage, Str localArch]) w0
      in case ensureDockerAvailable w of
           Some e \<Rightarrow> (Some e, w)
         | None \<Rightarrow>
      (case docker_pull w fullImage of
           Inl e \<Rightarrow> (Some (''failed to pull upstream image: '' @ e), w)
         | Inr store \<Rightarrow>
      (let w = w\<lparr>docker_inspect := store\<rparr> in
       case getLocalManifestListDigest fullImage w of
           Inl e \<Rightarrow> (Some e, w)
         | Inr listDigest \<Rightarrow>
      (case docker_manifest_inspect w fullImage of
           ManifestFailed e out \<Rightarrow> (Some (''failed to inspect manifest: '' @ e @ NL @ out), w)
         | ManifestUnparsable e \<Rightarrow> (Some (''failed to parse manifest: '' @ e), w)
         | ManifestParsed manifests \<Rightarrow>
             (let now = Truncate_Second (clock w);
                  meta = \<lparr>Repository = upstreamImage, Tag = factorioTag,
                          ManifestList = listDigest, Digests = Map.empty, UpdatedAt = now\<rparr>;
                  meta = carry_forward w meta;
                  (meta, w) = merge_manifests manifests meta w
              in persist meta w)))))"

subsection \<open>All\<close>

text \<open>\<open>call\<close> runs an operation and notes it, with the error it returned, in \<open>calls\<close>.\<close>

definition call :: "string \<Rightarrow> (world \<Rightarrow> string option \<times> world) \<Rightarrow> world \<Rightarrow> string option \<times> world" where
  "call name f w = (let (r, w') = f w in (r, w'\<lparr>calls := calls w' @ [(name, r)]\<rparr>))"

text \<open>\<open>err != nil && strings.Contains(strings.ToLower(err.Error()), "no baseline")\<close>.\<close>

definition mentions_no_baseline :: "string option \<Rightarrow> bool" where
  "mentions_no_baseline err =
     (case err of None \<Rightarrow> False | Some e \<Rightarrow> Contains (ToLower e) ''no baseline'')"

definition SrcDigest_All :: "world \<Rightarrow> string option \<times> world" where
  "SrcDigest_All w0 =
     (let w = say (Println ''Running SrcDigest:All workflow...'') w0;
          (showErr, w) = call ''Show'' Show w;
          w = (case showErr of
                 Some e \<Rightarrow> say (Printf ''Show step failed: %v'' [Str e]) w
               | None \<Rightarrow> w);
          (err, w) = call ''Compare'' Compare w
      in if mentions_no_baseline err then
           (let w = say (Println ''Baseline missing. Performing initial sync...'') w;
                (syncErr, w) = call ''Sync'' Sync w
            in case syncErr of
                 Some e \<Rightarrow> (Some (''initial sync failed: '' @ e), w)
               | None \<Rightarrow> (None, say (Println ''Baseline initialized successfully.'') w))
         else if err = None then
           (None, say (Println ''Baseline is already up to date. No sync required.'') w)
         else
           (let w = say (Printf ''Change detected: %v'' [Str (the err)]) w;
                w = say (Println ''Synchronizing to target version...'') w;
                (syncErr, w) = call ''Sync'' Sync w
            in case syncErr of
                 Some e \<Rightarrow> (Some (''sync failed: '' @ e), w)
               | None \<Rightarrow> (None, say (Println ''SrcDigest:All completed successfully.'') w)))"

section \<open>Hardened\<close>

text \<open>
  The pipeline of \<open>magefiles/system.go\<close>. The stages Prepare, Build, Verify and Promote
  drive the docker client, the scanner and the registry; here each one returns the error
  that \<open>stage_error\<close> holds for it. \<open>present\<close> is the set of paths for which \<open>os.Stat\<close>
  succeeds, \<open>remove_fault\<close> the error of \<open>os.Remove\<close>. \<open>invoked\<close> lists the stages
  that were entered, \<open>elapsed\<close> is \<open>time.Since(start)\<close> rounded to the second.
\<close>

datatype stage = Prepare | Build | Verify | Promote | Clean

record pworld =
  stage_error :: "stage \<Rightarrow> string option"
  present :: "string set"
  remove_fault :: "string \<Rightarrow> string option"
  elapsed :: nat
  pstdout :: "event list"
  invoked :: "stage list"

definition psay :: "event \<Rightarrow> pworld \<Rightarrow> pworld" where
  "psay e w = w\<lparr>pstdout := pstdout w @ [e]\<rparr>"

definition outputDockerfile :: string where
  "outputDockerfile = ''docker/hardened.pinned.Dockerfile''"

definition invoke :: "stage \<Rightarrow> (pworld \<Rightarrow> string option \<times> pworld) \<Rightarrow> pworld \<Rightarrow> string option \<times> pworld" where
  "invoke s f w = f (w\<lparr>invoked := invoked w @ [s]\<rparr>)"

definition Hardened_Prepare :: "pworld \<Rightarrow> string option \<times> pworld" where
  "Hardened_Prepare w = (stage_error w Prepare, w)"

definition Hardened_Build :: "pworld \<Rightarrow> string option \<times> pworld" where
  "Hardened_Build w = (stage_error w Build, w)"

definition Hardened_Verify :: "pworld \<Rightarrow> string option \<times> pworld" where
  "Hardened_Verify w = (stage_error w Verify, w)"

definition Hardened_Promote :: "pworld \<Rightarrow> string option \<times> pworld" where
  "Hardened_Promote w = (stage_error w Promote, w)"

text \<open>The loop of \<open>Clean\<close> over the generated files; a failed removal is printed.\<close>

fun Clean_files :: "string list \<Rightarrow> pworld \<Rightarrow> pworld" where
  "Clean_files [] w = w"
| "Clean_files (f # fs) w =
     (if f \<in> present w then
        (case remove_fault w f of
           Some e \<Rightarrow> Clean_files fs (psay (Printf ''Failed to remove %s: %v'' [Str f, Str e]) w)
         | None \<Rightarrow> Clean_files fs (psay (Printf ''Removed %s'' [Str f]) (w\<lparr>present := present w - {f}\<rparr>)))
      else Clean_files fs w)"

definition Hardened_Clean :: "pworld \<Rightarrow> string option \<times> pworld" where
  "Hardened_Clean w = (None, Clean_files [outputDockerfile] w)"

text \<open>\<open>All\<close>, with the cleanup it calls last as a parameter, so that what \<open>All\<close> does
  with an error of the cleanup can be stated; \<open>Hardened_All\<close> is the function of the
  source.\<close>

definition Hardened_All_with :: "(pworld \<Rightarrow> string option \<times> pworld) \<Rightarrow> pworld \<Rightarrow> string option \<times> pworld" where
  "Hardened_All_with clean w0 =
     (let w = psay (Println ''Running full hardened image pipeline...'') w0 in
      case invoke Prepare Hardened_Prepare w of
        (Some e, w) \<Rightarrow> (Some (''prepare stage failed: '' @ e), w)
      | (None, w) \<Rightarrow>
      (case invoke Build Hardened_Build w of
        (Some e, w) \<Rightarrow> (Some (''build stage failed: '' @ e), w)
      | (None, w) \<Rightarrow>
      (case invoke Verify Hardened_Verify w of
        (Some e, w) \<Rightarrow> (Some (''verification stage failed: '' @ e), w)
      | (None, w) \<Rightarrow>
      (case invoke Promote Hardened_Promote w of
        (Some e, w) \<Rightarrow> (Some (''promotion stage failed: '' @ e), w)
      | (None, w) \<Rightarrow>
      (case invoke Clean clean w of
        (cerr, w) \<Rightarrow>
          (let w = (case cerr of
                      Some e \<Rightarrow> psay (Printf ''cleanup stage warning: %v'' [Str e]) w
                    | None \<Rightarrow> w)
           in (None, psay (Printf ''Hardened image pipeline completed successfully in %s'' [Num (elapsed w)]) w)))))))"

definition Hardened_All :: "pworld \<Rightarrow> string option \<times> pworld" where
  "Hardened_All = Hardened_All_with Hardened_Clean"

section \<open>Observations and sample states\<close>

text \<open>The record that the baseline file holds, when it can be read and decoded.\<close>

definition stored_baseline :: "world \<Rightarrow> MultiArchMetadata option" where
  "stored_baseline w =
     (case ReadFile w baselineFile of
        Inr data \<Rightarrow> (case Unmarshal data of Inr m \<Rightarrow> Some m | Inl _ \<Rightarrow> None)
      | Inl _ \<Rightarrow> None)"

text \<open>The map that \<open>Sync\<close> starts from.\<close>

definition prior_digests :: "world \<Rightarrow> (string \<rightharpoonup> string)" where
  "prior_digests w = (case stored_baseline w of Some m \<Rightarrow> Digests m | None \<Rightarrow> Map.empty)"

text \<open>The platforms of the manifest that \<open>Sync\<close> fetches.\<close>

definition fetched_manifests :: "world \<Rightarrow> manifest_entry list" where
  "fetched_manifests w =
     (case docker_manifest_inspect w fullImage of ManifestParsed ms \<Rightarrow> ms | _ \<Rightarrow> [])"

text \<open>The manifest-list digest that \<open>Sync\<close> reads after its pull.\<close>

definition pulled_list_digest :: "world \<Rightarrow> string + string" where
  "pulled_list_digest w =
     (case docker_pull w fullImage of
        Inl e \<Rightarrow> Inl e
      | Inr store \<Rightarrow> getLocalManifestListDigest fullImage (w\<lparr>docker_inspect := store\<rparr>))"

definition normalize_arch :: "string \<Rightarrow> string" where
  "normalize_arch a = TrimSpace (ToLower a)"

text \<open>The assignments the loop of \<open>Sync\<close> makes, in order: key and digest.\<close>

definition manifest_updates :: "manifest_entry list \<Rightarrow> (string \<times> string) list" where
  "manifest_updates ms =
     map (\<lambda>m. (normalize_arch (Architecture m), Digest m))
       (filter (\<lambda>m. isValidArch (normalize_arch (Architecture m))) ms)"

text \<open>What the Digest Source Adapter gives \<open>Compare\<close>: the first three steps of
  \<open>Compare\<close>, the error of the first that fails or the two digests.\<close>

definition adapter_reply :: "world \<Rightarrow> string + (string \<times> string)" where
  "adapter_reply w =
     (case ensureDockerAvailable w of
        Some e \<Rightarrow> Inl e
      | None \<Rightarrow>
          (case getLocalManifestListDigest fullImage w of
             Inl e \<Rightarrow> Inl e
           | Inr currentList \<Rightarrow>
               (case getLocalArchDigest fullImage w of
                  Inl e \<Rightarrow> Inl e
                | Inr currentArch \<Rightarrow> Inr (currentList, currentArch))))"

text \<open>The stored baseline agrees with upstream, for the list and the local
  architecture.\<close>

definition baseline_current :: "world \<Rightarrow> bool" where
  "baseline_current w =
     (case adapter_reply w of
        Inl _ \<Rightarrow> False
      | Inr (currentList, currentArch) \<Rightarrow>
          (case stored_baseline w of
             None \<Rightarrow> False
           | Some meta \<Rightarrow>
               ManifestList meta = currentList \<and> Digests meta (getLocalArch w) = Some currentArch))"

text \<open>Two states with the same host, docker replies and files.\<close>

definition same_environment :: "world \<Rightarrow> world \<Rightarrow> bool" where
  "same_environment w w' =
     (GOARCH w' = GOARCH w \<and> docker_lookpath w' = docker_lookpath w \<and>
      docker_inspect w' fullImage = docker_inspect w fullImage \<and>
      docker_manifest_inspect w' fullImage = docker_manifest_inspect w fullImage \<and>
      files w' baselineFile = files w baselineFile)"


text \<open>The second state is the first one but for what was printed and the log of calls.\<close>

definition differs_in_log :: "world \<Rightarrow> world \<Rightarrow> bool" where
  "differs_in_log w w' =
     (GOARCH w' = GOARCH w \<and> docker_lookpath w' = docker_lookpath w \<and>
      docker_pull w' = docker_pull w \<and> docker_inspect w' = docker_inspect w \<and>
      docker_manifest_inspect w' = docker_manifest_inspect w \<and> files w' = files w \<and>
      create_fault w' = create_fault w \<and> encode_fault w' = encode_fault w \<and>
      clock w' = clock w)"

text \<open>The state in which \<open>All\<close> calls \<open>Compare\<close>.\<close>

definition at_compare :: "world \<Rightarrow> world" where
  "at_compare w0 =
     (let w = say (Println ''Running SrcDigest:All workflow...'') w0;
          (showErr, w) = call ''Show'' Show w
      in case showErr of
           Some e \<Rightarrow> say (Printf ''Show step failed: %v'' [Str e]) w
         | None \<Rightarrow> w)"

text \<open>The state in which \<open>All\<close> calls \<open>Sync\<close>, when \<open>Compare\<close> has returned an
  error.\<close>

definition at_sync :: "world \<Rightarrow> world" where
  "at_sync w0 =
     (let (err, w) = call ''Compare'' Compare (at_compare w0)
      in if mentions_no_baseline err then
           say (Println ''Baseline missing. Performing initial sync...'') w
         else
           say (Println ''Synchronizing to target version...'')
             (say (Printf ''Change detected: %v'' [Str (the err)]) w))"

text \<open>The hard gates in their order, the first of them that fails, the stages entered
  when stage \<open>s\<close> is the first to fail, and what \<open>All\<close> puts before its error.\<close>

definition gates :: "stage list" where
  "gates = [Prepare, Build, Verify, Promote]"

definition first_failed :: "pworld \<Rightarrow> stage option" where
  "first_failed w = find (\<lambda>s. stage_error w s \<noteq> None) gates"

definition stages_through :: "stage \<Rightarrow> stage list" where
  "stages_through s = takeWhile (\<lambda>x. x \<noteq> s) gates @ [s]"

text \<open>The state in which \<open>All\<close> calls the cleanup, when the four hard gates have
  succeeded.\<close>

definition at_clean :: "pworld \<Rightarrow> pworld" where
  "at_clean w =
     w\<lparr>pstdout := pstdout w @ [Println ''Running full hardened image pipeline...''],
       invoked := invoked w @ gates @ [Clean]\<rparr>"

fun stage_label :: "stage \<Rightarrow> string" where
  "stage_label Prepare = ''prepare stage failed: ''"
| "stage_label Build = ''build stage failed: ''"
| "stage_label Verify = ''verification stage failed: ''"
| "stage_label Promote = ''promotion stage failed: ''"
| "stage_label Clean = ''cleanup stage warning: ''"

text \<open>The scenario of the specification: no baseline yet, upstream reports
  \<open>amd64\<close> and \<open>arm64\<close>.\<close>

definition sample_manifests :: "manifest_entry list" where
  "sample_manifests =
     [\<lparr>Digest = ''sha256:aaa'', Architecture = ''amd64'', OS = ''linux''\<rparr>,
      \<lparr>Digest = ''sha256:bbb'', Architecture = ''arm64'', OS = ''linux''\<rparr>]"

definition sample_world :: world where
  "sample_world =
     \<lparr>GOARCH = ''amd64'',
      docker_lookpath = None,
      docker_pull = (\<lambda>_. Inr (\<lambda>_. InspectOutput ''factoriotools/factorio@sha256:ccc'')),
      docker_inspect = (\<lambda>_. InspectOutput ''factoriotools/factorio@sha256:ccc''),
      docker_manifest_inspect = (\<lambda>_. ManifestParsed sample_manifests),
      files = Map.empty,
      create_fault = None,
      encode_fault = None,
      clock = 1700000000250000000,
      stdout = [],
      calls = []\<rparr>"

definition sample_record :: MultiArchMetadata where
  "sample_record =
     \<lparr>Repository = upstreamImage, Tag = factorioTag, ManifestList = ''sha256:ccc'',
      Digests = [''amd64'' \<mapsto> ''sha256:aaa'', ''arm64'' \<mapsto> ''sha256:bbb''],
      UpdatedAt = 1700000000000000000\<rparr>"

text \<open>The same state with the baseline already written.\<close>

definition synced_world :: world where
  "synced_world = sample_world\<lparr>files := [baselineFile \<mapsto> Readable (Document sample_record)]\<rparr>"

definition sample_pworld :: pworld where
  "sample_pworld =
     \<lparr>stage_error = (\<lambda>_. None),
      present = {outputDockerfile},
      remove_fault = (\<lambda>_. None),
      elapsed = 42,
      pstdout = [],
      invoked = []\<rparr>"

text \<open>The baseline written, and 650 milliseconds later, within the same second, a pull
  that brings a changed upstream manifest-list digest.\<close>

definition later_world :: world where
  "later_world =
     synced_world\<lparr>clock := 1700000000900000000,
                   docker_pull := (\<lambda>_. Inr (\<lambda>_. InspectOutput ''factoriotools/factorio@sha256:ddd''))\<rparr>"

text \<open>The baseline written, then the local image carries a new manifest-list digest.\<close>

definition drifted_world :: world where
  "drifted_world =
     synced_world\<lparr>docker_inspect := (\<lambda>_. InspectOutput ''factoriotools/factorio@sha256:ddd'')\<rparr>"

text \<open>The baseline written, then upstream republishes the tag without \<open>amd64\<close>: the
  local image carries a new manifest-list digest and the manifest has no entry for the
  local architecture.\<close>

definition republished_world :: world where
  "republished_world =
     synced_world\<lparr>docker_inspect := (\<lambda>_. InspectOutput ''factoriotools/factorio@sha256:ddd''),
                   docker_manifest_inspect :=
                     (\<lambda>_. ManifestParsed [\<lparr>Digest = ''sha256:eee'', Architecture = ''arm64'', OS = ''linux''\<rparr>])\<rparr>"

text \<open>No baseline and no docker client.\<close>

definition dockerless_world :: world where
  "dockerless_world = sample_world\<lparr>docker_lookpath := Some ''executable file not found in $PATH''\<rparr>"

text \<open>The baseline written, and the encoder failing on the next write.\<close>

definition full_disk_world :: world where
  "full_disk_world = synced_world\<lparr>encode_fault := Some ''no space left on device''\<rparr>"

text \<open>A baseline that holds \<open>amd64\<close> only, and a manifest that holds \<open>arm64\<close> only.\<close>

definition amd64_record :: MultiArchMetadata where
  "amd64_record = sample_record\<lparr>Digests := [''amd64'' \<mapsto> ''sha256:d1'']\<rparr>"

definition arm64_only_world :: world where
  "arm64_only_world =
     sample_world\<lparr>files := [baselineFile \<mapsto> Readable (Document amd64_record)],
                   docker_manifest_inspect :=
                     (\<lambda>_. ManifestParsed [\<lparr>Digest = ''sha256:d2'', Architecture = ''arm64'', OS = ''linux''\<rparr>])\<rparr>"



text \<open>A baseline file that already holds a key outside the allow-list.\<close>

definition foreign_record :: MultiArchMetadata where
  "foreign_record = sample_record\<lparr>Digests := [''amd64'' \<mapsto> ''sha256:aaa'', ''riscv64'' \<mapsto> ''sha256:fff'']\<rparr>"

definition foreign_world :: world where
  "foreign_world = sample_world\<lparr>files := [baselineFile \<mapsto> Readable (Document foreign_record)]\<rparr>"


text \<open>A pipeline run in which the verification fails.\<close>

definition failing_pworld :: pworld where
  "failing_pworld =
     sample_pworld\<lparr>stage_error := (\<lambda>s. if s = Verify then Some ''image runs as root'' else None)\<rparr>"

text \<open>A cleanup that returns an error.\<close>

definition failing_clean :: "pworld \<Rightarrow> string option \<times> pworld" where
  "failing_clean w = (Some ''permission denied'', w)"

section \<open>Normalised architecture names\<close>

lemma lowerChar_idem: "lowerChar (lowerChar c) = lowerChar c"
  by (simp add: lowerChar_def Let_def)

lemma ToLower_fixed: "(\<forall>c\<in>set s. lowerChar c = c) \<Longrightarrow> ToLower s = s"
  unfolding ToLower_def by (induction s) auto

lemma strip_fixed:
  "find (\<lambda>p. p \<noteq> [] \<and> prefix p s) ps = None \<Longrightarrow> strip ps s = s"
  by (simp add: strip.simps)

lemma strip_clean: "find (\<lambda>p. p \<noteq> [] \<and> prefix p (strip ps s)) ps = None"
proof (induction ps s rule: strip.induct)
  case (1 ps s)
  show ?case
  proof (cases "find (\<lambda>p. p \<noteq> [] \<and> prefix p s) ps")
    case None
    then show ?thesis by (simp add: strip_fixed)
  next
    case (Some p)
    then have "strip ps s = strip ps (drop (length p) s)"
      by (simp add: strip.simps)
    then show ?thesis using "1.IH" [OF Some] by simp
  qed
qed

lemma strip_idem: "strip ps (strip ps s) = strip ps s"
  by (rule strip_fixed) (rule strip_clean)

lemma strip_suffix: "suffix (strip ps s) s"
proof (induction ps s rule: strip.induct)
  case (1 ps s)
  show ?case
  proof (cases "find (\<lambda>p. p \<noteq> [] \<and> prefix p s) ps")
    case None
    then show ?thesis by (simp add: strip_fixed)
  next
    case (Some p)
    then have e: "strip ps s = strip ps (drop (length p) s)"
      by (simp add: strip.simps)
    have "suffix (strip ps (drop (length p) s)) (drop (length p) s)"
      using "1.IH" [OF Some] .
    then have "suffix (strip ps (drop (length p) s)) s"
      using suffix_drop suffix_order.trans by blast
    then show ?thesis using e by simp
  qed
qed

lemma TrimSpace_prefix: "prefix (TrimSpace s) (strip spaces s)"
proof -
  have "suffix (strip (map rev spaces) (rev (strip spaces s))) (rev (strip spaces s))"
    by (rule strip_suffix)
  then show ?thesis
    unfolding TrimSpace_def by (simp add: suffix_to_prefix)
qed

lemma set_TrimSpace: "set (TrimSpace s) \<subseteq> set s"
proof -
  have "set (TrimSpace s) \<subseteq> set (strip spaces s)"
    using TrimSpace_prefix set_mono_prefix by blast
  moreover have "set (strip spaces s) \<subseteq> set s"
    using strip_suffix set_mono_suffix by blast
  ultimately show ?thesis by blast
qed

lemma TrimSpace_idem: "TrimSpace (TrimSpace s) = TrimSpace s"
proof -
  let ?t = "strip spaces s"
  let ?u = "TrimSpace s"
  have "find (\<lambda>p. p \<noteq> [] \<and> prefix p ?u) spaces = None"
  proof (rule ccontr)
    assume "find (\<lambda>p. p \<noteq> [] \<and> prefix p ?u) spaces \<noteq> None"
    then obtain p where "p \<in> set spaces" "p \<noteq> []" "prefix p ?u"
      by (auto simp: find_None_iff)
    then have "p \<in> set spaces \<and> p \<noteq> [] \<and> prefix p ?t"
      using TrimSpace_prefix [of s] prefix_order.trans by blast
    then have "find (\<lambda>p. p \<noteq> [] \<and> prefix p ?t) spaces \<noteq> None"
      by (auto simp: find_None_iff)
    then show False using strip_clean [of spaces s] by simp
  qed
  then have 1: "strip spaces ?u = ?u"
    by (rule strip_fixed)
  have "TrimSpace ?u = rev (strip (map rev spaces) (rev ?u))"
    unfolding TrimSpace_def [of ?u] 1 by (rule refl)
  also have "rev ?u = strip (map rev spaces) (rev ?t)"
    by (simp add: TrimSpace_def)
  also have "rev (strip (map rev spaces) (strip (map rev spaces) (rev ?t))) = ?u"
    unfolding strip_idem by (simp add: TrimSpace_def)
  finally show ?thesis .
qed

lemma ToLower_TrimSpace_ToLower: "ToLower (TrimSpace (ToLower a)) = TrimSpace (ToLower a)"
proof (rule ToLower_fixed, rule ballI)
  fix c
  assume "c \<in> set (TrimSpace (ToLower a))"
  then have "c \<in> set (ToLower a)"
    using set_TrimSpace by blast
  then show "lowerChar c = c"
    by (auto simp: ToLower_def lowerChar_idem)
qed

lemma map_upd_add_shift: "m(k \<mapsto> v) ++ map_of xs = m ++ map_of (xs @ [(k, v)])"
  by (rule ext) (simp add: map_add_def split: option.splits)

lemma normalize_arch_fixed: "ToLower (TrimSpace (normalize_arch a)) = normalize_arch a"
  by (simp add: normalize_arch_def TrimSpace_idem ToLower_TrimSpace_ToLower)

lemma isValidArch_normalize:
  "isValidArch (normalize_arch a) \<longleftrightarrow> normalize_arch a = ''amd64'' \<or> normalize_arch a = ''arm64''"
  by (simp add: isValidArch_def Let_def normalize_arch_fixed)

lemma merge_manifests_step:
  "merge_manifests (m # ms) meta w =
     (if isValidArch (normalize_arch (Architecture m))
      then merge_manifests ms (meta\<lparr>Digests := (Digests meta)(normalize_arch (Architecture m) \<mapsto> Digest m)\<rparr>) w
      else merge_manifests ms meta
             (say (Printf ''Skipping unsupported arch %q (%s)''
                     [Str (normalize_arch (Architecture m)), Str (Digest m)]) w))"
  by (simp add: normalize_arch_def Let_def)

lemma manifest_updates_Cons:
  "manifest_updates (m # ms) =
     (if isValidArch (normalize_arch (Architecture m))
      then (normalize_arch (Architecture m), Digest m) # manifest_updates ms
      else manifest_updates ms)"
  by (simp add: manifest_updates_def)

lemma merge_manifests_Digests:
  "Digests (fst (merge_manifests ms meta w)) = Digests meta ++ map_of (rev (manifest_updates ms))"
proof (induction ms arbitrary: meta w)
  case Nil
  then show ?case by (simp add: manifest_updates_def)
next
  case (Cons m ms)
  define k where "k = normalize_arch (Architecture m)"
  show ?case
  proof (cases "isValidArch k")
    case True
    have "Digests (fst (merge_manifests (m # ms) meta w)) =
          (Digests meta)(k \<mapsto> Digest m) ++ map_of (rev (manifest_updates ms))"
      using True unfolding merge_manifests_step k_def by (simp add: Cons.IH fun_upd_def)
    also have "\<dots> = Digests meta ++ map_of (rev (manifest_updates ms) @ [(k, Digest m)])"
      by (rule map_upd_add_shift)
    also have "rev (manifest_updates ms) @ [(k, Digest m)] = rev (manifest_updates (m # ms))"
      using True unfolding manifest_updates_Cons k_def by simp
    finally show ?thesis .
  next
    case False
    then show ?thesis
      unfolding merge_manifests_step manifest_updates_Cons k_def by (simp add: Cons.IH)
  qed
qed

lemma merge_manifests_fields:
  "ManifestList (fst (merge_manifests ms meta w)) = ManifestList meta \<and>
   UpdatedAt (fst (merge_manifests ms meta w)) = UpdatedAt meta \<and>
   Repository (fst (merge_manifests ms meta w)) = Repository meta \<and>
   Tag (fst (merge_manifests ms meta w)) = Tag meta"
proof (induction ms arbitrary: meta w)
  case Nil
  then show ?case by simp
next
  case (Cons m ms)
  show ?case unfolding merge_manifests_step by (simp add: Cons.IH)
qed

lemma merge_manifests_world:
  "\<exists>out. snd (merge_manifests ms meta w) = w\<lparr>stdout := out\<rparr>"
proof (induction ms arbitrary: meta w)
  case Nil
  have "w = w\<lparr>stdout := stdout w\<rparr>" by simp
  then show ?case by (metis merge_manifests.simps(1) snd_conv)
next
  case (Cons m ms)
  show ?case
  proof (cases "isValidArch (normalize_arch (Architecture m))")
    case True
    then show ?thesis unfolding merge_manifests_step using Cons.IH by simp
  next
    case False
    let ?w = "say (Printf ''Skipping unsupported arch %q (%s)''
                     [Str (normalize_arch (Architecture m)), Str (Digest m)]) w"
    obtain out where "snd (merge_manifests ms meta ?w) = ?w\<lparr>stdout := out\<rparr>"
      using Cons.IH by blast
    then have "snd (merge_manifests (m # ms) meta w) = w\<lparr>stdout := out\<rparr>"
      using False unfolding merge_manifests_step by (simp add: say_def)
    then show ?thesis by blast
  qed
qed

section \<open>What Sync builds and writes\<close>

lemma say_fields [simp]:
  "GOARCH (say e w) = GOARCH w"
  "docker_lookpath (say e w) = docker_lookpath w"
  "docker_pull (say e w) = docker_pull w"
  "docker_inspect (say e w) = docker_inspect w"
  "docker_manifest_inspect (say e w) = docker_manifest_inspect w"
  "files (say e w) = files w"
  "create_fault (say e w) = create_fault w"
  "encode_fault (say e w) = encode_fault w"
  "clock (say e w) = clock w"
  "calls (say e w) = calls w"
  by (simp_all add: say_def)

lemma say_getLocalArch [simp]: "getLocalArch (say e w) = getLocalArch w"
  by (simp add: getLocalArch_def)

lemma say_oracles [simp]:
  "ensureDockerAvailable (say e w) = ensureDockerAvailable w"
  "getLocalManifestListDigest img (say e w) = getLocalManifestListDigest img w"
  "getLocalArchDigest img (say e w) = getLocalArchDigest img w"
  "ReadFile (say e w) p = ReadFile w p"
  "stored_baseline (say e w) = stored_baseline w"
  by (simp_all add: ensureDockerAvailable_def getLocalManifestListDigest_def
      getLocalArchDigest_def ReadFile_def stored_baseline_def split: manifest_reply.splits)

lemma carry_forward_Digests:
  "Digests (carry_forward w meta) = Digests meta ++ prior_digests w"
  by (simp add: carry_forward_def prior_digests_def stored_baseline_def split: sum.splits)

lemma carry_forward_fields:
  "ManifestList (carry_forward w meta) = ManifestList meta \<and>
   UpdatedAt (carry_forward w meta) = UpdatedAt meta \<and>
   Repository (carry_forward w meta) = Repository meta \<and>
   Tag (carry_forward w meta) = Tag meta"
  by (simp add: carry_forward_def split: sum.splits)

lemma persist_success:
  "fst (persist meta w) = None \<Longrightarrow> stored_baseline (snd (persist meta w)) = Some meta"
  by (auto simp: persist_def Let_def stored_baseline_def ReadFile_def Unmarshal_def
      split: option.splits)


lemma merge_manifests_stdout:
  "set (stdout w) \<subseteq> set (stdout (snd (merge_manifests ms meta w)))"
proof (induction ms arbitrary: meta w)
  case Nil
  then show ?case by simp
next
  case (Cons m ms)
  show ?case
  proof (cases "isValidArch (normalize_arch (Architecture m))")
    case True
    then show ?thesis unfolding merge_manifests_step using Cons.IH by simp
  next
    case False
    let ?w = "say (Printf ''Skipping unsupported arch %q (%s)''
                     [Str (normalize_arch (Architecture m)), Str (Digest m)]) w"
    have "set (stdout w) \<subseteq> set (stdout ?w)"
      by (auto simp: say_def)
    also have "\<dots> \<subseteq> set (stdout (snd (merge_manifests ms meta ?w)))"
      by (rule Cons.IH)
    finally show ?thesis using False unfolding merge_manifests_step by simp
  qed
qed

lemma merge_manifests_warns:
  "e \<in> set ms \<Longrightarrow> \<not> isValidArch (normalize_arch (Architecture e)) \<Longrightarrow>
   Printf ''Skipping unsupported arch %q (%s)'' [Str (normalize_arch (Architecture e)), Str (Digest e)]
     \<in> set (stdout (snd (merge_manifests ms meta w)))"
proof (induction ms arbitrary: meta w)
  case Nil
  then show ?case by simp
next
  case (Cons m ms)
  show ?case
  proof (cases "e = m")
    case True
    let ?w = "say (Printf ''Skipping unsupported arch %q (%s)''
                     [Str (normalize_arch (Architecture m)), Str (Digest m)]) w"
    have "Printf ''Skipping unsupported arch %q (%s)'' [Str (normalize_arch (Architecture m)), Str (Digest m)]
            \<in> set (stdout ?w)"
      by (simp add: say_def)
    then have "Printf ''Skipping unsupported arch %q (%s)'' [Str (normalize_arch (Architecture m)), Str (Digest m)]
            \<in> set (stdout (snd (merge_manifests ms meta ?w)))"
      using merge_manifests_stdout by blast
    then show ?thesis
      using True Cons.prems(2) unfolding merge_manifests_step by simp
  next
    case False
    then have "e \<in> set ms" using Cons.prems(1) by simp
    then show ?thesis
      unfolding merge_manifests_step using Cons.IH Cons.prems(2) by simp
  qed
qed

text \<open>The record Sync has built in memory when it reaches the persist step.\<close>

lemma Sync_steps:
  assumes "ensureDockerAvailable w = None"
    and "docker_pull w fullImage = Inr st"
    and "getLocalManifestListDigest fullImage (w\<lparr>docker_inspect := st\<rparr>) = Inr ld"
    and "docker_manifest_inspect w fullImage = ManifestParsed ms"
  shows "\<exists>meta w'. Sync w = persist meta w' \<and> files w' = files w \<and>
           create_fault w' = create_fault w \<and> encode_fault w' = encode_fault w \<and>
           (\<forall>e\<in>set ms. \<not> isValidArch (normalize_arch (Architecture e)) \<longrightarrow>
              Printf ''Skipping unsupported arch %q (%s)'' [Str (normalize_arch (Architecture e)), Str (Digest e)]
                \<in> set (stdout w')) \<and>
           meta = \<lparr>Repository = upstreamImage, Tag = factorioTag, ManifestList = ld,
                   Digests = prior_digests w ++ map_of (rev (manifest_updates ms)),
                   UpdatedAt = Truncate_Second (clock w)\<rparr>"
proof -
  define w1 where "w1 = (say (Printf ''Syncing Factorio image %s for architecture: %s''
      [Str fullImage, Str (getLocalArch w)]) w)\<lparr>docker_inspect := st\<rparr>"
  define meta0 where "meta0 = carry_forward w1 \<lparr>Repository = upstreamImage, Tag = factorioTag,
      ManifestList = ld, Digests = Map.empty, UpdatedAt = Truncate_Second (clock w)\<rparr>"
  define r where "r = merge_manifests ms meta0 w1"
  have ld1: "getLocalManifestListDigest fullImage w1 = Inr ld"
    using assms(3) by (simp add: w1_def getLocalManifestListDigest_def say_def)
  have prior: "prior_digests w1 = prior_digests w"
    by (simp add: w1_def prior_digests_def stored_baseline_def ReadFile_def say_def)
  have S: "Sync w = persist (fst r) (snd r)"
    using assms(1,2,4) ld1
    by (simp add: Sync_def Let_def r_def meta0_def w1_def split_beta)
  obtain out where out: "snd r = w1\<lparr>stdout := out\<rparr>"
    unfolding r_def using merge_manifests_world by blast
  have D: "Digests (fst r) = prior_digests w ++ map_of (rev (manifest_updates ms))"
    unfolding r_def merge_manifests_Digests meta0_def carry_forward_Digests prior by simp
  have F: "ManifestList (fst r) = ld" "UpdatedAt (fst r) = Truncate_Second (clock w)"
    "Repository (fst r) = upstreamImage" "Tag (fst r) = factorioTag"
    unfolding r_def meta0_def using merge_manifests_fields carry_forward_fields by simp_all
  have "fst r = \<lparr>Repository = upstreamImage, Tag = factorioTag, ManifestList = ld,
                   Digests = prior_digests w ++ map_of (rev (manifest_updates ms)),
                   UpdatedAt = Truncate_Second (clock w)\<rparr>"
    using D F by (intro MultiArchMetadata.equality) simp_all
  moreover have "files (snd r) = files w" "create_fault (snd r) = create_fault w"
    "encode_fault (snd r) = encode_fault w"
    unfolding out by (simp_all add: w1_def)
  moreover have "\<forall>e\<in>set ms. \<not> isValidArch (normalize_arch (Architecture e)) \<longrightarrow>
              Printf ''Skipping unsupported arch %q (%s)'' [Str (normalize_arch (Architecture e)), Str (Digest e)]
                \<in> set (stdout (snd r))"
    unfolding r_def using merge_manifests_warns by blast
  ultimately show ?thesis using S by blast
qed

lemma Sync_success_steps:
  assumes "fst (Sync w) = None"
  shows "\<exists>st ld ms. ensureDockerAvailable w = None \<and> docker_pull w fullImage = Inr st \<and>
     getLocalManifestListDigest fullImage (w\<lparr>docker_inspect := st\<rparr>) = Inr ld \<and>
     docker_manifest_inspect w fullImage = ManifestParsed ms"
proof -
  have a: "ensureDockerAvailable w = None"
    using assms by (auto simp: Sync_def Let_def split: option.splits)
  obtain st where b: "docker_pull w fullImage = Inr st"
    using assms a by (cases "docker_pull w fullImage") (auto simp: Sync_def Let_def)
  define w1 where "w1 = (say (Printf ''Syncing Factorio image %s for architecture: %s''
      [Str fullImage, Str (getLocalArch w)]) w)\<lparr>docker_inspect := st\<rparr>"
  have e: "getLocalManifestListDigest fullImage w1 = getLocalManifestListDigest fullImage (w\<lparr>docker_inspect := st\<rparr>)"
    by (simp add: w1_def getLocalManifestListDigest_def say_def)
  obtain ld where c: "getLocalManifestListDigest fullImage (w\<lparr>docker_inspect := st\<rparr>) = Inr ld"
    using assms a b e
    by (cases "getLocalManifestListDigest fullImage (w\<lparr>docker_inspect := st\<rparr>)")
       (auto simp: Sync_def Let_def w1_def)
  obtain ms where d: "docker_manifest_inspect w fullImage = ManifestParsed ms"
    using assms a b c e
    by (cases "docker_manifest_inspect w fullImage") (auto simp: Sync_def Let_def w1_def)
  show ?thesis using a b c d by blast
qed

lemma Sync_success:
  assumes "fst (Sync w) = None"
  shows "\<exists>ld. pulled_list_digest w = Inr ld \<and>
     stored_baseline (snd (Sync w)) =
       Some \<lparr>Repository = upstreamImage, Tag = factorioTag, ManifestList = ld,
             Digests = prior_digests w ++ map_of (rev (manifest_updates (fetched_manifests w))),
             UpdatedAt = Truncate_Second (clock w)\<rparr>"
proof -
  obtain st ld ms where s: "ensureDockerAvailable w = None" "docker_pull w fullImage = Inr st"
     "getLocalManifestListDigest fullImage (w\<lparr>docker_inspect := st\<rparr>) = Inr ld"
     "docker_manifest_inspect w fullImage = ManifestParsed ms"
    using Sync_success_steps [OF assms] by blast
  obtain meta w' where p: "Sync w = persist meta w'"
    "meta = \<lparr>Repository = upstreamImage, Tag = factorioTag, ManifestList = ld,
                   Digests = prior_digests w ++ map_of (rev (manifest_updates ms)),
                   UpdatedAt = Truncate_Second (clock w)\<rparr>"
    using Sync_steps [OF s] by blast
  have "stored_baseline (snd (Sync w)) = Some meta"
    using assms unfolding p(1) by (rule persist_success)
  moreover have "pulled_list_digest w = Inr ld"
    using s by (simp add: pulled_list_digest_def)
  moreover have "fetched_manifests w = ms"
    using s by (simp add: fetched_manifests_def)
  ultimately show ?thesis using p(2) by simp
qed

section \<open>Evaluation on concrete states\<close>

lemma string_eval:
  "isValidArch ''amd64''" "isValidArch ''arm64''" "\<not> isValidArch ''riscv64''"
  "normalize_arch ''amd64'' = ''amd64''" "normalize_arch ''arm64'' = ''arm64''"
  "normalize_arch ''riscv64'' = ''riscv64''"
  "normalize_arch (''AMD64'' @ [CHR 0xC2, CHR 0xA0]) = ''amd64''"
  "normalize_arch ([CHR 0xE2, CHR 0x80, CHR 0x83] @ '' Arm64'' @ [CHR 0x0A, CHR 0xE3, CHR 0x80, CHR 0x80]) = ''arm64''"
  by (simp_all add: isValidArch_def normalize_arch_def TrimSpace_def strip.simps spaces_def
      ToLower_def lowerChar_def char_of_def bit_Suc_0_iff)

lemma manifest_updates_keys: "fst ` set (manifest_updates ms) \<subseteq> {''amd64'', ''arm64''}"
  by (auto simp: manifest_updates_def isValidArch_normalize)

lemma map_of_rev_None: "k \<notin> fst ` set xs \<Longrightarrow> map_of (rev xs) k = None"
  by (simp add: map_of_eq_None_iff)

lemmas eval_defs = Sync_def Compare_def Show_def persist_def carry_forward_def
  ensureDockerAvailable_def getLocalManifestListDigest_def getLocalArchDigest_def getLocalArch_def
  ReadFile_def Unmarshal_def stored_baseline_def prior_digests_def fetched_manifests_def
  pulled_list_digest_def adapter_reply_def
  SplitN_at2_def TrimSpace_def strip.simps spaces_def ToLower_def lowerChar_def EqualFold_def
  isValidArch_def normalize_arch_def say_def Println_def Let_def split_beta
  fullImage_def upstreamImage_def factorioTag_def baselineFile_def empty_file_def
  sample_world_def sample_manifests_def sample_record_def synced_world_def

section \<open>Carry-forward\<close>

text \<open>
  C4. A successful \<open>Sync\<close> writes a baseline whose \<open>Digests\<close> is the previously
  stored map with the allow-listed entries of the fetched manifest assigned over it, in
  the order of the manifest: every stored architecture is still a key, a stored
  architecture that the manifest does not assign keeps its digest, and from the stored
  map \<open>{amd64: D1}\<close> and a manifest that holds only \<open>arm64: D2\<close> the result is
  exactly \<open>{amd64: D1, arm64: D2}\<close>.
\<close>

theorem Sync_carry_forward:
  assumes "fst (Sync w) = None"
  shows "\<exists>m. stored_baseline (snd (Sync w)) = Some m \<and>
           Digests m = prior_digests w ++ map_of (rev (manifest_updates (fetched_manifests w))) \<and>
           (\<forall>k v. prior_digests w k = Some v \<longrightarrow> k \<in> dom (Digests m)) \<and>
           (\<forall>k v. prior_digests w k = Some v \<longrightarrow>
                  k \<notin> fst ` set (manifest_updates (fetched_manifests w)) \<longrightarrow> Digests m k = Some v) \<and>
           (\<forall>ex D1 D2 os.
              stored_baseline w = Some ex \<and> Digests ex = [''amd64'' \<mapsto> D1] \<and>
              fetched_manifests w = [\<lparr>Digest = D2, Architecture = ''arm64'', OS = os\<rparr>] \<longrightarrow>
              Digests m = [''amd64'' \<mapsto> D1, ''arm64'' \<mapsto> D2])"
proof -
  let ?u = "manifest_updates (fetched_manifests w)"
  obtain ld where s: "stored_baseline (snd (Sync w)) =
       Some \<lparr>Repository = upstreamImage, Tag = factorioTag, ManifestList = ld,
             Digests = prior_digests w ++ map_of (rev ?u),
             UpdatedAt = Truncate_Second (clock w)\<rparr>"
    using Sync_success [OF assms] by blast
  define m where "m = \<lparr>Repository = upstreamImage, Tag = factorioTag, ManifestList = ld,
             Digests = prior_digests w ++ map_of (rev ?u),
             UpdatedAt = Truncate_Second (clock w)\<rparr>"
  have D: "Digests m = prior_digests w ++ map_of (rev ?u)"
    by (simp add: m_def)
  have kept: "\<forall>k v. prior_digests w k = Some v \<longrightarrow> k \<in> dom (Digests m)"
    unfolding D by (auto simp: map_add_def split: option.splits)
  have same: "\<forall>k v. prior_digests w k = Some v \<longrightarrow> k \<notin> fst ` set ?u \<longrightarrow> Digests m k = Some v"
    unfolding D by (simp add: map_add_def map_of_rev_None)
  have scen: "\<forall>ex D1 D2 os.
              stored_baseline w = Some ex \<and> Digests ex = [''amd64'' \<mapsto> D1] \<and>
              fetched_manifests w = [\<lparr>Digest = D2, Architecture = ''arm64'', OS = os\<rparr>] \<longrightarrow>
              Digests m = [''amd64'' \<mapsto> D1, ''arm64'' \<mapsto> D2]"
  proof (intro allI impI)
    fix ex D1 D2 os
    assume a: "stored_baseline w = Some ex \<and> Digests ex = [''amd64'' \<mapsto> D1] \<and>
              fetched_manifests w = [\<lparr>Digest = D2, Architecture = ''arm64'', OS = os\<rparr>]"
    then have p: "prior_digests w = [''amd64'' \<mapsto> D1]"
      by (simp add: prior_digests_def)
    have u: "?u = [(''arm64'', D2)]"
      using a by (simp add: manifest_updates_def string_eval)
    show "Digests m = [''amd64'' \<mapsto> D1, ''arm64'' \<mapsto> D2]"
      unfolding D p u by simp
  qed
  show ?thesis
    using s D kept same scen unfolding m_def [symmetric] by blast
qed

theorem Sync_carry_forward_witness:
  "fst (Sync arm64_only_world) = None \<and>
   (\<exists>m. stored_baseline (snd (Sync arm64_only_world)) = Some m \<and>
        Digests m = [''amd64'' \<mapsto> ''sha256:d1'', ''arm64'' \<mapsto> ''sha256:d2''])"
proof -
  have h: "fst (Sync arm64_only_world) = None"
    by (simp add: eval_defs arm64_only_world_def amd64_record_def)
  have b: "stored_baseline arm64_only_world = Some amd64_record"
    by (simp add: eval_defs arm64_only_world_def)
  have d: "Digests amd64_record = [''amd64'' \<mapsto> ''sha256:d1'']"
    by (simp add: amd64_record_def)
  have f: "fetched_manifests arm64_only_world =
             [\<lparr>Digest = ''sha256:d2'', Architecture = ''arm64'', OS = ''linux''\<rparr>]"
    by (simp add: eval_defs arm64_only_world_def)
  show ?thesis
    using h b d f Sync_carry_forward [OF h] by blast
qed


section \<open>Allow-list\<close>




section \<open>Stored keys outside the allow-list\<close>

text \<open>
  C10. With a previous baseline that can be read and decoded, \<open>Sync\<close> assigns every
  entry of that baseline's \<open>Digests\<close> into the new record, whatever the key and the
  digest are. So a stored key other than \<open>amd64\<close> and \<open>arm64\<close> is in the baseline that
  a successful \<open>Sync\<close> writes, with its digest, and the keys of the result lie within
  the allow-list exactly when the keys of the previous baseline do.
\<close>

theorem Sync_keeps_stored_keys:
  assumes "fst (Sync w) = None"
    and "stored_baseline w = Some ex"
  shows "\<exists>m. stored_baseline (snd (Sync w)) = Some m \<and>
           (\<forall>meta. carry_forward w meta = meta\<lparr>Digests := Digests meta ++ Digests ex\<rparr>) \<and>
           (\<forall>k v. Digests ex k = Some v \<and> k \<noteq> ''amd64'' \<and> k \<noteq> ''arm64'' \<longrightarrow> Digests m k = Some v) \<and>
           (dom (Digests m) \<subseteq> {''amd64'', ''arm64''} \<longleftrightarrow> dom (Digests ex) \<subseteq> {''amd64'', ''arm64''})"
proof -
  let ?u = "manifest_updates (fetched_manifests w)"
  have p: "prior_digests w = Digests ex"
    using assms(2) by (simp add: prior_digests_def)
  obtain ld where s: "stored_baseline (snd (Sync w)) =
       Some \<lparr>Repository = upstreamImage, Tag = factorioTag, ManifestList = ld,
             Digests = Digests ex ++ map_of (rev ?u),
             UpdatedAt = Truncate_Second (clock w)\<rparr>"
    using Sync_success [OF assms(1)] unfolding p by blast
  define m where "m = \<lparr>Repository = upstreamImage, Tag = factorioTag, ManifestList = ld,
             Digests = Digests ex ++ map_of (rev ?u),
             UpdatedAt = Truncate_Second (clock w)\<rparr>"
  have D: "Digests m = Digests ex ++ map_of (rev ?u)"
    by (simp add: m_def)
  have keys: "fst ` set ?u \<subseteq> {''amd64'', ''arm64''}"
    by (rule manifest_updates_keys)
  have copy: "\<forall>meta. carry_forward w meta = meta\<lparr>Digests := Digests meta ++ Digests ex\<rparr>"
    using assms(2)
    by (auto simp: carry_forward_def stored_baseline_def split: sum.splits)
  have kept: "\<forall>k v. Digests ex k = Some v \<and> k \<noteq> ''amd64'' \<and> k \<noteq> ''arm64'' \<longrightarrow> Digests m k = Some v"
  proof (intro allI impI)
    fix k v
    assume a: "Digests ex k = Some v \<and> k \<noteq> ''amd64'' \<and> k \<noteq> ''arm64''"
    then have "k \<notin> fst ` set ?u"
      using keys by blast
    then show "Digests m k = Some v"
      unfolding D using a by (simp add: map_add_def map_of_rev_None)
  qed
  have dom: "dom (Digests m) = fst ` set ?u \<union> dom (Digests ex)"
    unfolding D by (simp add: dom_map_of_conv_image_fst)
  have iff: "dom (Digests m) \<subseteq> {''amd64'', ''arm64''} \<longleftrightarrow> dom (Digests ex) \<subseteq> {''amd64'', ''arm64''}"
    unfolding dom using keys by blast
  show ?thesis
    using s copy kept iff unfolding m_def [symmetric] by blast
qed

theorem Sync_keeps_stored_keys_witness:
  "fst (Sync foreign_world) = None \<and> stored_baseline foreign_world = Some foreign_record \<and>
   Digests foreign_record ''riscv64'' = Some ''sha256:fff'' \<and>
   (\<exists>m. stored_baseline (snd (Sync foreign_world)) = Some m \<and>
        Digests m ''riscv64'' = Some ''sha256:fff'' \<and> \<not> dom (Digests m) \<subseteq> {''amd64'', ''arm64''})"
proof -
  have h: "fst (Sync foreign_world) = None"
    by (simp add: eval_defs foreign_world_def foreign_record_def)
  have b: "stored_baseline foreign_world = Some foreign_record"
    by (simp add: eval_defs foreign_world_def)
  have d: "Digests foreign_record ''riscv64'' = Some ''sha256:fff''"
    by (simp add: foreign_record_def)
  have n: "\<not> dom (Digests foreign_record) \<subseteq> {''amd64'', ''arm64''}"
    by (simp add: foreign_record_def)
  obtain m where m: "stored_baseline (snd (Sync foreign_world)) = Some m"
    "\<forall>k v. Digests foreign_record k = Some v \<and> k \<noteq> ''amd64'' \<and> k \<noteq> ''arm64'' \<longrightarrow> Digests m k = Some v"
    "dom (Digests m) \<subseteq> {''amd64'', ''arm64''} \<longleftrightarrow> dom (Digests foreign_record) \<subseteq> {''amd64'', ''arm64''}"
    using Sync_keeps_stored_keys [OF h b] by blast
  have "Digests m ''riscv64'' = Some ''sha256:fff''"
    using m(2) d by simp
  then show ?thesis
    using h b d n m(1,3) by blast
qed

lemma Truncate_Second_div: "Truncate_Second t = (t div 1000000000) * 1000000000"
  unfolding Truncate_Second_def by (simp add: minus_mod_eq_div_mult)

lemma Truncate_Second_less:
  "Truncate_Second s < Truncate_Second t \<longleftrightarrow> s div 1000000000 < t div 1000000000"
  unfolding Truncate_Second_div by simp

lemma Truncate_Second_mono: "s \<le> t \<Longrightarrow> Truncate_Second s \<le> Truncate_Second t"
  unfolding Truncate_Second_div by (simp add: div_le_mono)

section \<open>Drift and resync\<close>

text \<open>
  C9. After a successful \<open>Sync\<close> the baseline holds the manifest-list digest that this
  \<open>Sync\<close> read after its pull, and as \<open>updated_at\<close> the clock reading of this \<open>Sync\<close>
  cut to the whole second. Of two successful runs, the later baseline's \<open>updated_at\<close>
  is the greater one exactly when the second run read the clock in a later second; with a
  clock that does not go back it is never the smaller one.
\<close>

theorem Sync_resync:
  assumes "fst (Sync w1) = None"
    and "fst (Sync w2) = None"
  shows "\<exists>b1 b2 new.
           stored_baseline (snd (Sync w1)) = Some b1 \<and>
           stored_baseline (snd (Sync w2)) = Some b2 \<and>
           pulled_list_digest w2 = Inr new \<and> ManifestList b2 = new \<and>
           UpdatedAt b2 = Truncate_Second (clock w2) \<and>
           (UpdatedAt b1 < UpdatedAt b2 \<longleftrightarrow> clock w1 div 1000000000 < clock w2 div 1000000000) \<and>
           (clock w1 \<le> clock w2 \<longrightarrow> UpdatedAt b1 \<le> UpdatedAt b2)"
proof -
  obtain l1 where s1: "stored_baseline (snd (Sync w1)) =
       Some \<lparr>Repository = upstreamImage, Tag = factorioTag, ManifestList = l1,
             Digests = prior_digests w1 ++ map_of (rev (manifest_updates (fetched_manifests w1))),
             UpdatedAt = Truncate_Second (clock w1)\<rparr>"
    using Sync_success [OF assms(1)] by blast
  obtain l2 where s2: "pulled_list_digest w2 = Inr l2" "stored_baseline (snd (Sync w2)) =
       Some \<lparr>Repository = upstreamImage, Tag = factorioTag, ManifestList = l2,
             Digests = prior_digests w2 ++ map_of (rev (manifest_updates (fetched_manifests w2))),
             UpdatedAt = Truncate_Second (clock w2)\<rparr>"
    using Sync_success [OF assms(2)] by blast
  show ?thesis
    unfolding s1 s2 by (simp add: Truncate_Second_less Truncate_Second_mono)
qed

theorem Sync_resync_witness:
  "fst (Sync sample_world) = None \<and> fst (Sync later_world) = None \<and>
   (\<exists>b1 b2. stored_baseline (snd (Sync sample_world)) = Some b1 \<and>
            stored_baseline (snd (Sync later_world)) = Some b2 \<and>
            ManifestList b2 = ''sha256:ddd'' \<and> UpdatedAt b2 = 1700000000000000000 \<and>
            UpdatedAt b1 \<le> UpdatedAt b2)"
proof -
  have h1: "fst (Sync sample_world) = None"
    by (simp add: eval_defs)
  have h2: "fst (Sync later_world) = None"
    by (simp add: eval_defs later_world_def)
  have p: "pulled_list_digest later_world = Inr ''sha256:ddd''"
    by (simp add: eval_defs later_world_def)
  have c: "clock sample_world \<le> clock later_world"
    by (simp add: sample_world_def synced_world_def later_world_def)
  have t: "Truncate_Second (clock later_world) = 1700000000000000000"
    by (simp add: Truncate_Second_def sample_world_def synced_world_def later_world_def)
  show ?thesis
    using h1 h2 c Sync_resync [OF h1 h2] unfolding p t by auto
qed

text \<open>Two successful runs within one second, the upstream manifest-list digest changed
  in between: the second baseline has the new digest and the same \<open>updated_at\<close>.\<close>

theorem Sync_resync_counterexample:
  "fst (Sync sample_world) = None \<and> fst (Sync later_world) = None \<and>
   files later_world = files (snd (Sync sample_world)) \<and>
   pulled_list_digest sample_world = Inr ''sha256:ccc'' \<and>
   pulled_list_digest later_world = Inr ''sha256:ddd'' \<and>
   map_option ManifestList (stored_baseline (snd (Sync later_world))) = Some ''sha256:ddd'' \<and>
   map_option UpdatedAt (stored_baseline (snd (Sync sample_world))) = Some 1700000000000000000 \<and>
   map_option UpdatedAt (stored_baseline (snd (Sync later_world))) = Some 1700000000000000000"
  by (simp add: eval_defs later_world_def Truncate_Second_def)

section \<open>Compare\<close>

lemma only_stdout_refl: "\<exists>out. w = w\<lparr>stdout := out\<rparr>"
proof
  show "w = w\<lparr>stdout := stdout w\<rparr>" by simp
qed

lemma only_stdout_say:
  assumes "\<exists>out. w' = w\<lparr>stdout := out\<rparr>"
  shows "\<exists>out. say e w' = w\<lparr>stdout := out\<rparr>"
proof -
  obtain out where "w' = w\<lparr>stdout := out\<rparr>"
    using assms by blast
  then have "say e w' = w\<lparr>stdout := out @ [e]\<rparr>"
    by (simp add: say_def)
  then show ?thesis by blast
qed

lemma Compare_result:
  "fst (Compare w) =
     (case adapter_reply w of
        Inl e \<Rightarrow> Some e
      | Inr (currentList, currentArch) \<Rightarrow>
          (case ReadFile w baselineFile of
             Inl NotExist \<Rightarrow> Some ''no baseline file found''
           | Inl (ReadErr e) \<Rightarrow> Some (''cannot read baseline file: '' @ e)
           | Inr data \<Rightarrow>
               (case Unmarshal data of
                  Inl e \<Rightarrow> Some (''failed to parse baseline: '' @ e)
                | Inr meta \<Rightarrow>
                    if ManifestList meta \<noteq> currentList then Some ''manifest list digest changed''
                    else (case Digests meta (getLocalArch w) of
                            Some oldArchDigest \<Rightarrow>
                              if oldArchDigest \<noteq> currentArch
                              then Some (''digest changed for '' @ getLocalArch w) else None
                          | None \<Rightarrow> Some (''missing digest for '' @ getLocalArch w)))))"
proof (cases "ensureDockerAvailable w")
  case (Some e)
  then show ?thesis by (simp add: Compare_def adapter_reply_def Let_def)
next
  case None
  note a = this
  show ?thesis
  proof (cases "getLocalManifestListDigest fullImage w")
    case (Inl e)
    then show ?thesis using a by (simp add: Compare_def adapter_reply_def Let_def)
  next
    case (Inr currentList)
    note b = this
    show ?thesis
    proof (cases "getLocalArchDigest fullImage w")
      case (Inl e)
      then show ?thesis using a b by (simp add: Compare_def adapter_reply_def Let_def)
    next
      case (Inr currentArch)
      then show ?thesis using a b
        by (simp add: Compare_def adapter_reply_def Let_def
            split: sum.splits read_error.splits option.splits)
    qed
  qed
qed

lemma Compare_world: "\<exists>out. snd (Compare w) = w\<lparr>stdout := out\<rparr>"
  unfolding Compare_def Let_def
  by (auto split: option.splits sum.splits read_error.splits
      intro!: only_stdout_say only_stdout_refl)

lemma Compare_files: "files (snd (Compare w)) = files w"
  using Compare_world [of w] by auto

lemma same_environment_adapter:
  assumes "same_environment w w'"
  shows "adapter_reply w' = adapter_reply w"
proof -
  have 1: "ensureDockerAvailable w' = ensureDockerAvailable w"
    using assms by (simp add: same_environment_def ensureDockerAvailable_def)
  have 2: "getLocalManifestListDigest fullImage w' = getLocalManifestListDigest fullImage w"
    using assms by (simp add: same_environment_def getLocalManifestListDigest_def)
  have 3: "getLocalArch w' = getLocalArch w"
    using assms by (simp add: same_environment_def getLocalArch_def)
  have 4: "getLocalArchDigest fullImage w' = getLocalArchDigest fullImage w"
    unfolding getLocalArchDigest_def 3 using assms by (simp add: same_environment_def)
  show ?thesis
    unfolding adapter_reply_def 1 2 4 by (rule refl)
qed

lemma same_environment_Compare:
  assumes "same_environment w w'"
  shows "fst (Compare w') = fst (Compare w)"
proof -
  have 1: "ReadFile w' baselineFile = ReadFile w baselineFile"
    using assms by (simp add: same_environment_def ReadFile_def)
  have 2: "getLocalArch w' = getLocalArch w"
    using assms by (simp add: same_environment_def getLocalArch_def)
  have 3: "adapter_reply w' = adapter_reply w"
    using assms by (rule same_environment_adapter)
  show ?thesis
    unfolding Compare_result 1 2 3 by (rule refl)
qed

lemma same_environment_after_Compare: "same_environment w (snd (Compare w))"
proof -
  obtain out where "snd (Compare w) = w\<lparr>stdout := out\<rparr>"
    using Compare_world by blast
  then show ?thesis by (simp add: same_environment_def)
qed

lemma same_environment_trans:
  "same_environment a b \<Longrightarrow> same_environment b c \<Longrightarrow> same_environment a c"
  by (simp add: same_environment_def)

lemma baseline_current_iff: "baseline_current w \<longleftrightarrow> fst (Compare w) = None"
  unfolding Compare_result baseline_current_def stored_baseline_def
  by (auto split: sum.splits read_error.splits option.splits prod.splits)

text \<open>
  C1. Once the docker client has been found, both digests have been fetched and the
  baseline has been read and decoded, \<open>Compare\<close> looks at the manifest-list digest
  first: if the stored one differs from the fetched one the result is the manifest-list
  drift, whatever the digests of the local architecture are. If they agree, the result
  is the missing entry when the baseline has no digest for the local architecture, the
  architecture drift when the stored entry differs from the fetched digest, and success
  when it is the same. The digest of the local architecture is fetched before this
  comparison, and an error of the adapter is the result of \<open>Compare\<close>.
\<close>

theorem Compare_first_mismatch:
  "(\<forall>e. adapter_reply w = Inl e \<longrightarrow> fst (Compare w) = Some e) \<and>
   (\<forall>currentList currentArch meta.
      adapter_reply w = Inr (currentList, currentArch) \<and> stored_baseline w = Some meta \<longrightarrow>
      (ManifestList meta \<noteq> currentList \<longrightarrow> fst (Compare w) = Some ''manifest list digest changed'') \<and>
      (ManifestList meta = currentList \<longrightarrow>
         (Digests meta (getLocalArch w) = None \<longrightarrow>
            fst (Compare w) = Some (''missing digest for '' @ getLocalArch w)) \<and>
         (\<forall>old. Digests meta (getLocalArch w) = Some old \<and> old \<noteq> currentArch \<longrightarrow>
            fst (Compare w) = Some (''digest changed for '' @ getLocalArch w)) \<and>
         (Digests meta (getLocalArch w) = Some currentArch \<longrightarrow> fst (Compare w) = None)))"
  unfolding Compare_result stored_baseline_def
  by (auto split: sum.splits read_error.splits option.splits)

theorem Compare_first_mismatch_witness:
  "adapter_reply drifted_world = Inr (''sha256:ddd'', ''sha256:aaa'') \<and>
   stored_baseline drifted_world = Some sample_record \<and>
   fst (Compare drifted_world) = Some ''manifest list digest changed'' \<and>
   adapter_reply synced_world = Inr (''sha256:ccc'', ''sha256:aaa'') \<and>
   stored_baseline synced_world = Some sample_record \<and>
   fst (Compare synced_world) = None"
proof -
  have a: "adapter_reply drifted_world = Inr (''sha256:ddd'', ''sha256:aaa'')"
    by (simp add: eval_defs drifted_world_def)
  have b: "stored_baseline drifted_world = Some sample_record"
    by (simp add: eval_defs drifted_world_def)
  have c: "adapter_reply synced_world = Inr (''sha256:ccc'', ''sha256:aaa'')"
    by (simp add: eval_defs)
  have d: "stored_baseline synced_world = Some sample_record"
    by (simp add: eval_defs)
  have m: "ManifestList sample_record = ''sha256:ccc''"
    "Digests sample_record (getLocalArch synced_world) = Some ''sha256:aaa''"
    by (simp_all add: sample_record_def getLocalArch_def synced_world_def sample_world_def)
  have "fst (Compare drifted_world) = Some ''manifest list digest changed''"
    using Compare_first_mismatch [of drifted_world] a b m(1) by simp
  moreover have "fst (Compare synced_world) = None"
    using Compare_first_mismatch [of synced_world] c d m by simp
  ultimately show ?thesis using a b c d by simp
qed

text \<open>The stored manifest-list digest differs from the fetched one, and the result is
  the error of the fetch for the local architecture.\<close>

theorem Compare_first_mismatch_counterexample:
  "getLocalManifestListDigest fullImage republished_world = Inr ''sha256:ddd'' \<and>
   map_option ManifestList (stored_baseline republished_world) = Some ''sha256:ccc'' \<and>
   fst (Compare republished_world) = Some ''no digest found for architecture amd64'' \<and>
   fst (Compare republished_world) \<noteq> Some ''manifest list digest changed''"
  by (simp add: eval_defs republished_world_def)

text \<open>
  C7. \<open>Compare\<close> changes nothing but the output: the files are as before. A second
  \<open>Compare\<close> in the same environment gives the result of the first, whatever that
  result is. Both calls report that the baseline is up to date exactly when the stored
  baseline agrees with upstream, which is exactly when the first \<open>Compare\<close> succeeds.
\<close>

theorem Compare_read_only_idempotent:
  "(\<exists>out. snd (Compare w) = w\<lparr>stdout := out\<rparr>) \<and>
   files (snd (Compare w)) = files w \<and>
   (\<forall>w2. same_environment (snd (Compare w)) w2 \<longrightarrow>
      fst (Compare w2) = fst (Compare w) \<and> files (snd (Compare w2)) = files w2) \<and>
   (baseline_current w \<longleftrightarrow> fst (Compare w) = None) \<and>
   (baseline_current w \<longrightarrow> fst (Compare w) = None \<and> fst (Compare (snd (Compare w))) = None)"
proof -
  have 1: "\<forall>w2. same_environment (snd (Compare w)) w2 \<longrightarrow>
      fst (Compare w2) = fst (Compare w) \<and> files (snd (Compare w2)) = files w2"
    using same_environment_Compare same_environment_trans same_environment_after_Compare Compare_files
    by blast
  have 2: "fst (Compare (snd (Compare w))) = fst (Compare w)"
    using same_environment_Compare [OF same_environment_after_Compare] .
  show ?thesis
    using Compare_world [of w] Compare_files [of w] 1 2 baseline_current_iff [of w] by simp
qed

theorem Compare_read_only_idempotent_witness:
  "baseline_current synced_world \<and>
   fst (Compare synced_world) = None \<and> fst (Compare (snd (Compare synced_world))) = None \<and>
   files (snd (Compare synced_world)) = files synced_world \<and>
   files (snd (Compare (snd (Compare synced_world)))) = files synced_world"
proof -
  have b: "baseline_current synced_world"
    by (simp add: baseline_current_def eval_defs)
  have "files (snd (Compare (snd (Compare synced_world)))) = files (snd (Compare synced_world))"
    using Compare_read_only_idempotent [of "snd (Compare synced_world)"] by blast
  then show ?thesis
    using b Compare_read_only_idempotent [of synced_world] by simp
qed

text \<open>The stored baseline has drifted and nothing changes between two calls: both
  report the changed manifest list, not an up-to-date baseline.\<close>

theorem Compare_read_only_idempotent_counterexample:
  "same_environment drifted_world (snd (Compare drifted_world)) \<and>
   fst (Compare drifted_world) = Some ''manifest list digest changed'' \<and>
   fst (Compare (snd (Compare drifted_world))) = Some ''manifest list digest changed''"
  by (simp add: same_environment_def eval_defs drifted_world_def)

text \<open>
  C8. \<open>Compare\<close> calls the adapter before it reads the baseline file. With no baseline
  file its result is the missing baseline when the docker client is found and both
  digests are fetched; otherwise it is the error of the adapter.
\<close>

theorem Compare_no_baseline:
  assumes "files w baselineFile = None"
  shows "fst (Compare w) =
           (case adapter_reply w of Inl e \<Rightarrow> Some e | Inr _ \<Rightarrow> Some ''no baseline file found'')"
  unfolding Compare_result using assms
  by (simp add: ReadFile_def split: sum.splits)

theorem Compare_no_baseline_witness:
  "files sample_world baselineFile = None \<and>
   adapter_reply sample_world = Inr (''sha256:ccc'', ''sha256:aaa'') \<and>
   fst (Compare sample_world) = Some ''no baseline file found''"
proof -
  have f: "files sample_world baselineFile = None"
    by (simp add: sample_world_def)
  have a: "adapter_reply sample_world = Inr (''sha256:ccc'', ''sha256:aaa'')"
    by (simp add: eval_defs)
  show ?thesis
    using f a Compare_no_baseline [OF f] by simp
qed

text \<open>No baseline file and no docker client: the result is not the missing baseline.\<close>

theorem Compare_no_baseline_counterexample:
  "files dockerless_world baselineFile = None \<and>
   fst (Compare dockerless_world) =
     Some ''docker not found in PATH: executable file not found in $PATH'' \<and>
   fst (Compare dockerless_world) \<noteq> Some ''no baseline file found''"
  by (simp add: eval_defs dockerless_world_def)

section \<open>The persist step\<close>

lemma persist_files:
  "files (snd (persist meta w)) =
     (case create_fault w of
        Some _ \<Rightarrow> files w
      | None \<Rightarrow>
          (case encode_fault w of
             Some _ \<Rightarrow> (files w)(baselineFile \<mapsto> Readable empty_file)
           | None \<Rightarrow> (files w)(baselineFile \<mapsto> Readable (Document meta))))"
  by (simp add: persist_def Let_def say_def split: option.splits)

lemma persist_result:
  "fst (persist meta w) =
     (case create_fault w of
        Some e \<Rightarrow> Some (''failed to write baseline file: '' @ e)
      | None \<Rightarrow>
          (case encode_fault w of
             Some e \<Rightarrow> Some (''failed to encode baseline metadata: '' @ e)
           | None \<Rightarrow> None))"
  by (simp add: persist_def Let_def split: option.splits)

text \<open>Either \<open>Sync\<close> stops before the persist step, with an error and the files as
  they were, or it reaches the persist step with the files as they were.\<close>

lemma Sync_reaches_persist:
  "(fst (Sync w) \<noteq> None \<and> files (snd (Sync w)) = files w) \<or>
   (\<exists>meta w'. Sync w = persist meta w' \<and> files w' = files w \<and>
      create_fault w' = create_fault w \<and> encode_fault w' = encode_fault w)"
proof (cases "ensureDockerAvailable w")
  case (Some e)
  then show ?thesis by (simp add: Sync_def Let_def)
next
  case None
  note a = this
  show ?thesis
  proof (cases "docker_pull w fullImage")
    case (Inl e)
    then show ?thesis using a by (simp add: Sync_def Let_def)
  next
    case (Inr st)
    note b = this
    define w1 where "w1 = (say (Printf ''Syncing Factorio image %s for architecture: %s''
        [Str fullImage, Str (getLocalArch w)]) w)\<lparr>docker_inspect := st\<rparr>"
    have e: "getLocalManifestListDigest fullImage w1 =
             getLocalManifestListDigest fullImage (w\<lparr>docker_inspect := st\<rparr>)"
      by (simp add: w1_def getLocalManifestListDigest_def say_def)
    show ?thesis
    proof (cases "getLocalManifestListDigest fullImage (w\<lparr>docker_inspect := st\<rparr>)")
      case (Inl e')
      then show ?thesis using a b e by (simp add: Sync_def Let_def w1_def)
    next
      case (Inr ld)
      note c = this
      show ?thesis
      proof (cases "docker_manifest_inspect w fullImage")
        case (ManifestFailed e' out)
        then show ?thesis using a b c e by (simp add: Sync_def Let_def w1_def)
      next
        case (ManifestUnparsable e')
        then show ?thesis using a b c e by (simp add: Sync_def Let_def w1_def)
      next
        case (ManifestParsed ms)
        then show ?thesis using Sync_steps [OF a b c] by blast
      qed
    qed
  qed
qed

text \<open>
  C2. \<open>Sync\<close> has built the whole record before it opens the baseline file: up to the
  persist step the files are as they were. When \<open>Sync\<close> fails before that step, or
  \<open>os.Create\<close> fails, the previous baseline file is left as it was. \<open>os.Create\<close>
  truncates the file in place, so when the encoder fails after that the file is left
  truncated.
\<close>

theorem Sync_failure_baseline:
  "((fst (Sync w) \<noteq> None \<and> files (snd (Sync w)) = files w) \<or>
    (\<exists>meta w'. Sync w = persist meta w' \<and> files w' = files w)) \<and>
   (\<forall>e. fst (Sync w) = Some e \<longrightarrow>
      files (snd (Sync w)) = files w \<or>
      create_fault w = None \<and> encode_fault w \<noteq> None \<and>
      files (snd (Sync w)) = (files w)(baselineFile \<mapsto> Readable empty_file)) \<and>
   (\<forall>e. fst (Sync w) = Some e \<and> (create_fault w \<noteq> None \<or> encode_fault w = None) \<longrightarrow>
      files (snd (Sync w)) = files w)"
proof -
  consider (early) "fst (Sync w) \<noteq> None" "files (snd (Sync w)) = files w"
    | (late) meta w' where "Sync w = persist meta w'" "files w' = files w"
        "create_fault w' = create_fault w" "encode_fault w' = encode_fault w"
    using Sync_reaches_persist [of w] by blast
  then show ?thesis
  proof cases
    case early
    then show ?thesis by simp
  next
    case late
    have f: "files (snd (Sync w)) =
       (case create_fault w of
          Some _ \<Rightarrow> files w
        | None \<Rightarrow>
            (case encode_fault w of
               Some _ \<Rightarrow> (files w)(baselineFile \<mapsto> Readable empty_file)
             | None \<Rightarrow> (files w)(baselineFile \<mapsto> Readable (Document meta))))"
      unfolding late(1) persist_files late(2,3,4) by (rule refl)
    have r: "fst (Sync w) =
       (case create_fault w of
          Some e \<Rightarrow> Some (''failed to write baseline file: '' @ e)
        | None \<Rightarrow>
            (case encode_fault w of
               Some e \<Rightarrow> Some (''failed to encode baseline metadata: '' @ e)
             | None \<Rightarrow> None))"
      unfolding late(1) persist_result late(3,4) by (rule refl)
    have 1: "(fst (Sync w) \<noteq> None \<and> files (snd (Sync w)) = files w) \<or>
             (\<exists>meta w'. Sync w = persist meta w' \<and> files w' = files w)"
      using late(1,2) by blast
    have 2: "\<forall>e. fst (Sync w) = Some e \<longrightarrow>
      files (snd (Sync w)) = files w \<or>
      create_fault w = None \<and> encode_fault w \<noteq> None \<and>
      files (snd (Sync w)) = (files w)(baselineFile \<mapsto> Readable empty_file)"
      unfolding f r by (auto split: option.splits)
    have 3: "\<forall>e. fst (Sync w) = Some e \<and> (create_fault w \<noteq> None \<or> encode_fault w = None) \<longrightarrow>
      files (snd (Sync w)) = files w"
      unfolding f r by (auto split: option.splits)
    show ?thesis using 1 2 3 by blast
  qed
qed

theorem Sync_failure_baseline_witness:
  "fst (Sync (synced_world\<lparr>create_fault := Some ''permission denied''\<rparr>)) =
     Some ''failed to write baseline file: permission denied'' \<and>
   files (snd (Sync (synced_world\<lparr>create_fault := Some ''permission denied''\<rparr>))) = files synced_world"
proof -
  let ?w = "synced_world\<lparr>create_fault := Some ''permission denied''\<rparr>"
  have r: "fst (Sync ?w) = Some ''failed to write baseline file: permission denied''"
    by (simp add: eval_defs)
  have c: "create_fault ?w \<noteq> None" "files ?w = files synced_world"
    by simp_all
  show ?thesis
    using r c Sync_failure_baseline [of ?w] by auto
qed

text \<open>The encoder fails: the previous baseline is gone and the file no longer decodes.\<close>

theorem Sync_failure_baseline_counterexample:
  "stored_baseline full_disk_world = Some sample_record \<and>
   fst (Sync full_disk_world) = Some ''failed to encode baseline metadata: no space left on device'' \<and>
   files (snd (Sync full_disk_world)) baselineFile = Some (Readable empty_file) \<and>
   files (snd (Sync full_disk_world)) baselineFile \<noteq> files full_disk_world baselineFile \<and>
   stored_baseline (snd (Sync full_disk_world)) = None"
  by (simp add: eval_defs full_disk_world_def)

section \<open>The composite operation\<close>

lemma Show_calls: "calls (snd (Show w)) = calls w"
  by (simp add: Show_def Let_def split: sum.splits read_error.splits option.splits)

lemma Compare_calls: "calls (snd (Compare w)) = calls w"
  using Compare_world [of w] by auto

lemma persist_calls: "calls (snd (persist meta w)) = calls w"
  by (simp add: persist_def Let_def split: option.splits)

lemma merge_manifests_calls: "calls (snd (merge_manifests ms meta w)) = calls w"
  using merge_manifests_world [of ms meta w] by auto

lemma Sync_calls: "calls (snd (Sync w)) = calls w"
  by (simp add: Sync_def Let_def split_beta persist_calls merge_manifests_calls
      split: option.splits sum.splits manifest_reply.splits)

lemma at_compare_calls:
  "calls (at_compare w) = calls w @ [(''Show'', fst (Show (say (Println ''Running SrcDigest:All workflow...'') w)))]"
  by (simp add: at_compare_def call_def Let_def split_beta Show_calls split: option.splits)

lemma SrcDigest_All_unfold:
  "SrcDigest_All w =
     (let (err, w) = call ''Compare'' Compare (at_compare w)
      in if mentions_no_baseline err then
           (let w = say (Println ''Baseline missing. Performing initial sync...'') w;
                (syncErr, w) = call ''Sync'' Sync w
            in case syncErr of
                 Some e \<Rightarrow> (Some (''initial sync failed: '' @ e), w)
               | None \<Rightarrow> (None, say (Println ''Baseline initialized successfully.'') w))
         else if err = None then
           (None, say (Println ''Baseline is already up to date. No sync required.'') w)
         else
           (let w = say (Printf ''Change detected: %v'' [Str (the err)]) w;
                w = say (Println ''Synchronizing to target version...'') w;
                (syncErr, w) = call ''Sync'' Sync w
            in case syncErr of
                 Some e \<Rightarrow> (Some (''sync failed: '' @ e), w)
               | None \<Rightarrow> (None, say (Println ''SrcDigest:All completed successfully.'') w)))"
  by (simp add: SrcDigest_All_def at_compare_def Let_def split_beta)

lemma call_fst: "fst (call name f w) = fst (f w)"
  by (simp add: call_def split_beta)

lemma call_calls: "calls (snd (call name f w)) = calls (snd (f w)) @ [(name, fst (f w))]"
  by (simp add: call_def split_beta)

lemma no_baseline_message: "mentions_no_baseline (Some ''no baseline file found'')"
  by (simp add: mentions_no_baseline_def ToLower_def lowerChar_def)

lemma differs_in_log_refl: "differs_in_log w w"
  by (simp add: differs_in_log_def)

lemma differs_in_log_trans:
  "differs_in_log a b \<Longrightarrow> differs_in_log b c \<Longrightarrow> differs_in_log a c"
  by (simp add: differs_in_log_def)

lemma differs_in_log_say: "differs_in_log w w' \<Longrightarrow> differs_in_log w (say e w')"
  by (simp add: differs_in_log_def)

lemma differs_in_log_call:
  "differs_in_log w (snd (f w')) \<Longrightarrow> differs_in_log w (snd (call name f w'))"
  by (simp add: differs_in_log_def call_def split_beta)

lemma Show_world: "\<exists>out. snd (Show w) = w\<lparr>stdout := out\<rparr>"
  unfolding Show_def Let_def
  by (auto split: option.splits sum.splits read_error.splits
      intro!: only_stdout_say only_stdout_refl)

lemma Show_log: "differs_in_log w (snd (Show w))"
proof -
  obtain out where "snd (Show w) = w\<lparr>stdout := out\<rparr>"
    using Show_world by blast
  then show ?thesis by (simp add: differs_in_log_def)
qed

lemma Compare_log: "differs_in_log w (snd (Compare w))"
proof -
  obtain out where "snd (Compare w) = w\<lparr>stdout := out\<rparr>"
    using Compare_world by blast
  then show ?thesis by (simp add: differs_in_log_def)
qed

lemma at_compare_log: "differs_in_log w (at_compare w)"
proof -
  let ?w0 = "say (Println ''Running SrcDigest:All workflow...'') w"
  have 0: "differs_in_log w ?w0"
    by (rule differs_in_log_say) (rule differs_in_log_refl)
  have "differs_in_log w (snd (Show ?w0))"
    using 0 Show_log by (rule differs_in_log_trans)
  then have 1: "differs_in_log w (snd (call ''Show'' Show ?w0))"
    by (rule differs_in_log_call)
  show ?thesis
    unfolding at_compare_def Let_def split_beta
    by (cases "fst (call ''Show'' Show ?w0)") (simp_all add: 1 differs_in_log_say)
qed

lemma after_compare_log: "differs_in_log w (snd (call ''Compare'' Compare (at_compare w)))"
proof -
  have "differs_in_log w (snd (Compare (at_compare w)))"
    using at_compare_log Compare_log by (rule differs_in_log_trans)
  then show ?thesis by (rule differs_in_log_call)
qed

lemma at_sync_log: "differs_in_log w (at_sync w)"
  unfolding at_sync_def Let_def split_beta
  by (simp add: after_compare_log differs_in_log_say)

text \<open>The result of \<open>Sync\<close> and the files it leaves, from the replies it gets.\<close>

lemma Sync_outcome:
  "(fst (Sync w), files (snd (Sync w))) =
     (case ensureDockerAvailable w of
        Some e \<Rightarrow> (Some e, files w)
      | None \<Rightarrow>
     (case docker_pull w fullImage of
        Inl e \<Rightarrow> (Some (''failed to pull upstream image: '' @ e), files w)
      | Inr st \<Rightarrow>
     (case getLocalManifestListDigest fullImage (w\<lparr>docker_inspect := st\<rparr>) of
        Inl e \<Rightarrow> (Some e, files w)
      | Inr ld \<Rightarrow>
     (case docker_manifest_inspect w fullImage of
        ManifestFailed e out \<Rightarrow> (Some (''failed to inspect manifest: '' @ e @ NL @ out), files w)
      | ManifestUnparsable e \<Rightarrow> (Some (''failed to parse manifest: '' @ e), files w)
      | ManifestParsed ms \<Rightarrow>
     (case create_fault w of
        Some e \<Rightarrow> (Some (''failed to write baseline file: '' @ e), files w)
      | None \<Rightarrow>
     (case encode_fault w of
        Some e \<Rightarrow> (Some (''failed to encode baseline metadata: '' @ e),
                   (files w)(baselineFile \<mapsto> Readable empty_file))
      | None \<Rightarrow>
          (None,
           (files w)(baselineFile \<mapsto> Readable (Document
              \<lparr>Repository = upstreamImage, Tag = factorioTag, ManifestList = ld,
               Digests = prior_digests w ++ map_of (rev (manifest_updates ms)),
               UpdatedAt = Truncate_Second (clock w)\<rparr>)))))))))"
proof (cases "ensureDockerAvailable w")
  case (Some e)
  then show ?thesis by (simp add: Sync_def Let_def)
next
  case None
  note a = this
  show ?thesis
  proof (cases "docker_pull w fullImage")
    case (Inl e)
    then show ?thesis using a by (simp add: Sync_def Let_def)
  next
    case (Inr st)
    note b = this
    define w1 where "w1 = (say (Printf ''Syncing Factorio image %s for architecture: %s''
        [Str fullImage, Str (getLocalArch w)]) w)\<lparr>docker_inspect := st\<rparr>"
    have e: "getLocalManifestListDigest fullImage w1 =
             getLocalManifestListDigest fullImage (w\<lparr>docker_inspect := st\<rparr>)"
      by (simp add: w1_def getLocalManifestListDigest_def say_def)
    show ?thesis
    proof (cases "getLocalManifestListDigest fullImage (w\<lparr>docker_inspect := st\<rparr>)")
      case (Inl e')
      then show ?thesis using a b e by (simp add: Sync_def Let_def w1_def)
    next
      case (Inr ld)
      note c = this
      show ?thesis
      proof (cases "docker_manifest_inspect w fullImage")
        case (ManifestFailed e' out)
        then show ?thesis using a b c e by (simp add: Sync_def Let_def w1_def)
      next
        case (ManifestUnparsable e')
        then show ?thesis using a b c e by (simp add: Sync_def Let_def w1_def)
      next
        case (ManifestParsed ms)
        note d = this
        obtain meta w' where p: "Sync w = persist meta w'" "files w' = files w"
          "create_fault w' = create_fault w" "encode_fault w' = encode_fault w"
          "meta = \<lparr>Repository = upstreamImage, Tag = factorioTag, ManifestList = ld,
                   Digests = prior_digests w ++ map_of (rev (manifest_updates ms)),
                   UpdatedAt = Truncate_Second (clock w)\<rparr>"
          using Sync_steps [OF a b c d] by blast
        have "(fst (Sync w), files (snd (Sync w))) =
           (case create_fault w of
              Some e \<Rightarrow> (Some (''failed to write baseline file: '' @ e), files w)
            | None \<Rightarrow>
                (case encode_fault w of
                   Some e \<Rightarrow> (Some (''failed to encode baseline metadata: '' @ e),
                              (files w)(baselineFile \<mapsto> Readable empty_file))
                 | None \<Rightarrow> (None, (files w)(baselineFile \<mapsto> Readable (Document meta)))))"
          unfolding p(1) persist_files persist_result p(2,3,4)
          by (simp split: option.splits)
        then show ?thesis
          unfolding p(5) using a b c d by simp
      qed
    qed
  qed
qed

text \<open>What \<open>Sync\<close> returns and the files it leaves do not depend on the output so far
  or on the log of calls.\<close>

lemma Sync_log_invariant:
  assumes "differs_in_log w w'"
  shows "fst (Sync w') = fst (Sync w) \<and> files (snd (Sync w')) = files (snd (Sync w))"
proof -
  have f: "docker_lookpath w' = docker_lookpath w" "docker_pull w' = docker_pull w"
    "docker_manifest_inspect w' = docker_manifest_inspect w" "files w' = files w"
    "create_fault w' = create_fault w" "encode_fault w' = encode_fault w" "clock w' = clock w"
    using assms by (simp_all add: differs_in_log_def)
  have 1: "ensureDockerAvailable w' = ensureDockerAvailable w"
    by (simp add: ensureDockerAvailable_def f)
  have 2: "\<And>st. getLocalManifestListDigest fullImage (w'\<lparr>docker_inspect := st\<rparr>) =
                getLocalManifestListDigest fullImage (w\<lparr>docker_inspect := st\<rparr>)"
    by (simp add: getLocalManifestListDigest_def)
  have 3: "prior_digests w' = prior_digests w"
    by (simp add: prior_digests_def stored_baseline_def ReadFile_def f)
  have "(fst (Sync w'), files (snd (Sync w'))) = (fst (Sync w), files (snd (Sync w)))"
    unfolding Sync_outcome 1 2 3 f by (rule refl)
  then show ?thesis by simp
qed

lemma stored_baseline_files: "files w' = files w \<Longrightarrow> stored_baseline w' = stored_baseline w"
  by (simp add: stored_baseline_def ReadFile_def)

text \<open>
  C6. \<open>All\<close> calls \<open>Show\<close>, then \<open>Compare\<close>. When \<open>Compare\<close> succeeds, \<open>All\<close>
  succeeds and calls nothing more: \<open>Sync\<close> is not called, and the state after \<open>All\<close>
  is the state before it but for the output and the log, so the files are as they were.
  When \<open>Compare\<close> returns an error, the missing baseline or any other, \<open>All\<close> calls
  \<open>Sync\<close> once, in a state that is the one before \<open>All\<close> but for the output and the
  log; the state after \<open>All\<close> is the state that this \<open>Sync\<close> leaves, but for the
  output and the log, and the files are those that \<open>Sync\<close> leaves when run in the state
  before \<open>All\<close>. If that \<open>Sync\<close> succeeds \<open>All\<close> succeeds, and the error of
  \<open>Compare\<close> is not returned; if it fails \<open>All\<close> returns the error of \<open>Sync\<close>. The
  error of a missing baseline is one that \<open>All\<close> takes for a missing baseline.
\<close>

theorem SrcDigest_All_reconcile:
  "(fst (Compare (at_compare w)) = None \<longrightarrow>
      fst (SrcDigest_All w) = None \<and>
      calls (snd (SrcDigest_All w)) = calls (at_compare w) @ [(''Compare'', None)] \<and>
      differs_in_log w (snd (SrcDigest_All w)) \<and>
      files (snd (SrcDigest_All w)) = files w) \<and>
   (\<forall>e. fst (Compare (at_compare w)) = Some e \<longrightarrow>
      calls (snd (SrcDigest_All w)) =
        calls (at_compare w) @ [(''Compare'', Some e), (''Sync'', fst (Sync (at_sync w)))] \<and>
      (fst (Sync (at_sync w)) = None \<longrightarrow> fst (SrcDigest_All w) = None) \<and>
      (\<forall>se. fst (Sync (at_sync w)) = Some se \<longrightarrow>
         fst (SrcDigest_All w) =
           Some ((if mentions_no_baseline (Some e) then ''initial sync failed: '' else ''sync failed: '') @ se)) \<and>
      differs_in_log w (at_sync w) \<and>
      differs_in_log (snd (Sync (at_sync w))) (snd (SrcDigest_All w)) \<and>
      fst (Sync (at_sync w)) = fst (Sync w) \<and>
      files (snd (SrcDigest_All w)) = files (snd (Sync (at_sync w))) \<and>
      files (snd (SrcDigest_All w)) = files (snd (Sync w))) \<and>
   mentions_no_baseline (Some ''no baseline file found'') \<and>
   (\<exists>rs. calls (at_compare w) = calls w @ [(''Show'', rs)]) \<and>
   fst (Compare (at_compare w)) = fst (Compare w)"
proof -
  define wc where "wc = snd (call ''Compare'' Compare (at_compare w))"
  have wc: "calls wc = calls (at_compare w) @ [(''Compare'', fst (Compare (at_compare w)))]"
    by (simp add: wc_def call_calls Compare_calls)
  have wcl: "differs_in_log w wc"
    unfolding wc_def by (rule after_compare_log)
  have 1: "fst (Compare (at_compare w)) = None \<longrightarrow>
      fst (SrcDigest_All w) = None \<and>
      calls (snd (SrcDigest_All w)) = calls (at_compare w) @ [(''Compare'', None)] \<and>
      differs_in_log w (snd (SrcDigest_All w)) \<and>
      files (snd (SrcDigest_All w)) = files w"
  proof
    assume a: "fst (Compare (at_compare w)) = None"
    then have A: "SrcDigest_All w =
        (None, say (Println ''Baseline is already up to date. No sync required.'') wc)"
      unfolding SrcDigest_All_unfold
      by (simp add: split_beta call_fst mentions_no_baseline_def wc_def)
    have l: "differs_in_log w (snd (SrcDigest_All w))"
      unfolding A using wcl by (simp add: differs_in_log_say)
    then have "files (snd (SrcDigest_All w)) = files w"
      by (simp add: differs_in_log_def)
    then show "fst (SrcDigest_All w) = None \<and>
      calls (snd (SrcDigest_All w)) = calls (at_compare w) @ [(''Compare'', None)] \<and>
      differs_in_log w (snd (SrcDigest_All w)) \<and>
      files (snd (SrcDigest_All w)) = files w"
      using A wc a l by simp
  qed
  have inv: "fst (Sync (at_sync w)) = fst (Sync w)"
    "files (snd (Sync (at_sync w))) = files (snd (Sync w))"
    using Sync_log_invariant [OF at_sync_log [of w]] by simp_all
  have 2: "\<forall>e. fst (Compare (at_compare w)) = Some e \<longrightarrow>
      calls (snd (SrcDigest_All w)) =
        calls (at_compare w) @ [(''Compare'', Some e), (''Sync'', fst (Sync (at_sync w)))] \<and>
      (fst (Sync (at_sync w)) = None \<longrightarrow> fst (SrcDigest_All w) = None) \<and>
      (\<forall>se. fst (Sync (at_sync w)) = Some se \<longrightarrow>
         fst (SrcDigest_All w) =
           Some ((if mentions_no_baseline (Some e) then ''initial sync failed: '' else ''sync failed: '') @ se)) \<and>
      differs_in_log w (at_sync w) \<and>
      differs_in_log (snd (Sync (at_sync w))) (snd (SrcDigest_All w)) \<and>
      fst (Sync (at_sync w)) = fst (Sync w) \<and>
      files (snd (SrcDigest_All w)) = files (snd (Sync (at_sync w))) \<and>
      files (snd (SrcDigest_All w)) = files (snd (Sync w))"
  proof (intro allI impI)
    fix e
    assume a: "fst (Compare (at_compare w)) = Some e"
    have sl: "differs_in_log (snd (Sync (at_sync w))) (snd (call ''Sync'' Sync (at_sync w)))"
      by (rule differs_in_log_call) (rule differs_in_log_refl)
    have core: "calls (snd (SrcDigest_All w)) =
        calls (at_compare w) @ [(''Compare'', Some e), (''Sync'', fst (Sync (at_sync w)))] \<and>
      (fst (Sync (at_sync w)) = None \<longrightarrow> fst (SrcDigest_All w) = None) \<and>
      (\<forall>se. fst (Sync (at_sync w)) = Some se \<longrightarrow>
         fst (SrcDigest_All w) =
           Some ((if mentions_no_baseline (Some e) then ''initial sync failed: '' else ''sync failed: '') @ se)) \<and>
      differs_in_log (snd (Sync (at_sync w))) (snd (SrcDigest_All w))"
    proof (cases "mentions_no_baseline (Some e)")
      case True
      have ws: "at_sync w = say (Println ''Baseline missing. Performing initial sync...'') wc"
        using a True by (simp add: at_sync_def split_beta call_fst wc_def)
      have A: "SrcDigest_All w =
          (case fst (Sync (at_sync w)) of
             Some se \<Rightarrow> (Some (''initial sync failed: '' @ se), snd (call ''Sync'' Sync (at_sync w)))
           | None \<Rightarrow> (None, say (Println ''Baseline initialized successfully.'')
                               (snd (call ''Sync'' Sync (at_sync w)))))"
        unfolding SrcDigest_All_unfold ws using a True
        by (simp add: split_beta call_fst wc_def [symmetric] Let_def)
      have c: "calls (snd (call ''Sync'' Sync (at_sync w))) =
               calls (at_compare w) @ [(''Compare'', Some e), (''Sync'', fst (Sync (at_sync w)))]"
        using a by (simp add: call_calls Sync_calls ws wc)
      show ?thesis
        unfolding A using True c sl by (simp add: differs_in_log_say split: option.splits)
    next
      case False
      have ws: "at_sync w = say (Println ''Synchronizing to target version...'')
                              (say (Printf ''Change detected: %v'' [Str e]) wc)"
        using a False by (simp add: at_sync_def split_beta call_fst wc_def)
      have A: "SrcDigest_All w =
          (case fst (Sync (at_sync w)) of
             Some se \<Rightarrow> (Some (''sync failed: '' @ se), snd (call ''Sync'' Sync (at_sync w)))
           | None \<Rightarrow> (None, say (Println ''SrcDigest:All completed successfully.'')
                               (snd (call ''Sync'' Sync (at_sync w)))))"
        unfolding SrcDigest_All_unfold ws using a False
        by (simp add: split_beta call_fst wc_def [symmetric] Let_def)
      have c: "calls (snd (call ''Sync'' Sync (at_sync w))) =
               calls (at_compare w) @ [(''Compare'', Some e), (''Sync'', fst (Sync (at_sync w)))]"
        using a by (simp add: call_calls Sync_calls ws wc)
      show ?thesis
        unfolding A using False c sl by (simp add: differs_in_log_say split: option.splits)
    qed
    have fl: "files (snd (SrcDigest_All w)) = files (snd (Sync (at_sync w)))"
      using core by (simp add: differs_in_log_def)
    show "calls (snd (SrcDigest_All w)) =
        calls (at_compare w) @ [(''Compare'', Some e), (''Sync'', fst (Sync (at_sync w)))] \<and>
      (fst (Sync (at_sync w)) = None \<longrightarrow> fst (SrcDigest_All w) = None) \<and>
      (\<forall>se. fst (Sync (at_sync w)) = Some se \<longrightarrow>
         fst (SrcDigest_All w) =
           Some ((if mentions_no_baseline (Some e) then ''initial sync failed: '' else ''sync failed: '') @ se)) \<and>
      differs_in_log w (at_sync w) \<and>
      differs_in_log (snd (Sync (at_sync w))) (snd (SrcDigest_All w)) \<and>
      fst (Sync (at_sync w)) = fst (Sync w) \<and>
      files (snd (SrcDigest_All w)) = files (snd (Sync (at_sync w))) \<and>
      files (snd (SrcDigest_All w)) = files (snd (Sync w))"
      using core at_sync_log [of w] inv fl by simp
  qed
  have 3: "\<exists>rs. calls (at_compare w) = calls w @ [(''Show'', rs)]"
    using at_compare_calls [of w] by blast
  have "same_environment w (at_compare w)"
    using at_compare_log [of w] by (simp add: differs_in_log_def same_environment_def)
  then have 4: "fst (Compare (at_compare w)) = fst (Compare w)"
    by (rule same_environment_Compare)
  show ?thesis
    using 1 2 no_baseline_message 3 4 by (intro conjI)
qed

theorem SrcDigest_All_reconcile_witness:
  "fst (Compare (at_compare sample_world)) = Some ''no baseline file found'' \<and>
   fst (Sync (at_sync sample_world)) = None \<and>
   fst (SrcDigest_All sample_world) = None \<and>
   calls (snd (SrcDigest_All sample_world)) =
     [(''Show'', None), (''Compare'', Some ''no baseline file found''), (''Sync'', None)] \<and>
   stored_baseline (snd (SrcDigest_All sample_world)) = Some sample_record \<and>
   fst (Compare (at_compare synced_world)) = None \<and>
   fst (SrcDigest_All synced_world) = None \<and>
   calls (snd (SrcDigest_All synced_world)) = [(''Show'', None), (''Compare'', None)] \<and>
   files (snd (SrcDigest_All synced_world)) = files synced_world"
proof -
  have a: "fst (Compare sample_world) = Some ''no baseline file found''"
    by (simp add: eval_defs)
  have b: "calls (at_compare sample_world) = [(''Show'', None)]"
    by (simp add: at_compare_def call_def eval_defs)
  have c: "fst (Sync sample_world) = None"
    by (simp add: eval_defs)
  have s: "stored_baseline (snd (Sync sample_world)) = Some sample_record"
    by (simp add: eval_defs Truncate_Second_def)
  have d: "fst (Compare synced_world) = None"
    by (simp add: eval_defs)
  have e: "calls (at_compare synced_world) = [(''Show'', None)]"
    by (simp add: at_compare_def call_def eval_defs)
  note T = SrcDigest_All_reconcile [of sample_world]
  have a': "fst (Compare (at_compare sample_world)) = Some ''no baseline file found''"
    using T a by simp
  have c0: "fst (Sync (at_sync sample_world)) = fst (Sync sample_world)"
    using T a' by blast
  have c': "fst (Sync (at_sync sample_world)) = None"
    using c0 c by simp
  have r0: "fst (Sync (at_sync sample_world)) = None \<longrightarrow> fst (SrcDigest_All sample_world) = None"
    using T a' by blast
  have r: "fst (SrcDigest_All sample_world) = None"
    using r0 c' by simp
  have l0: "calls (snd (SrcDigest_All sample_world)) =
     calls (at_compare sample_world) @
       [(''Compare'', Some ''no baseline file found''), (''Sync'', fst (Sync (at_sync sample_world)))]"
    using T a' by blast
  have l: "calls (snd (SrcDigest_All sample_world)) =
     [(''Show'', None), (''Compare'', Some ''no baseline file found''), (''Sync'', None)]"
    unfolding l0 b c' by simp
  have f0: "files (snd (SrcDigest_All sample_world)) = files (snd (Sync sample_world))"
    using T a' by blast
  have st: "stored_baseline (snd (SrcDigest_All sample_world)) = Some sample_record"
    using s stored_baseline_files [OF f0] by simp
  note U = SrcDigest_All_reconcile [of synced_world]
  have d': "fst (Compare (at_compare synced_world)) = None"
    using U d by simp
  have u0: "fst (SrcDigest_All synced_world) = None \<and>
      calls (snd (SrcDigest_All synced_world)) = calls (at_compare synced_world) @ [(''Compare'', None)] \<and>
      differs_in_log synced_world (snd (SrcDigest_All synced_world)) \<and>
      files (snd (SrcDigest_All synced_world)) = files synced_world"
    using U d' by blast
  have u: "fst (SrcDigest_All synced_world) = None \<and>
      calls (snd (SrcDigest_All synced_world)) = [(''Show'', None), (''Compare'', None)] \<and>
      files (snd (SrcDigest_All synced_world)) = files synced_world"
    using u0 unfolding e by simp
  show ?thesis
    using a' c' r l st d' u by (intro conjI) simp_all
qed

section \<open>The pipeline\<close>

lemma Clean_files_invoked: "invoked (Clean_files fs w) = invoked w"
  by (induction fs arbitrary: w) (auto simp: psay_def split: option.splits)

lemma Hardened_Clean_invoked: "invoked (snd (Hardened_Clean w)) = invoked w"
  unfolding Hardened_Clean_def by (simp only: snd_conv Clean_files_invoked)

lemma Hardened_Clean_result: "fst (Hardened_Clean w) = None"
  by (simp add: Hardened_Clean_def)

lemma first_failed_cases:
  "first_failed w =
     (if stage_error w Prepare \<noteq> None then Some Prepare
      else if stage_error w Build \<noteq> None then Some Build
      else if stage_error w Verify \<noteq> None then Some Verify
      else if stage_error w Promote \<noteq> None then Some Promote
      else None)"
  by (simp add: first_failed_def gates_def)

lemma stages_through_simps:
  "stages_through Prepare = [Prepare]"
  "stages_through Build = [Prepare, Build]"
  "stages_through Verify = [Prepare, Build, Verify]"
  "stages_through Promote = [Prepare, Build, Verify, Promote]"
  by (simp_all add: stages_through_def gates_def)

lemma Hardened_All_with_failure:
  assumes "first_failed w = Some s" and "stage_error w s = Some e"
  shows "fst (Hardened_All_with c w) = Some (stage_label s @ e) \<and>
         invoked (snd (Hardened_All_with c w)) = invoked w @ stages_through s \<and>
         Clean \<notin> set (stages_through s)"
proof -
  consider (p) "s = Prepare"
    | (b) "s = Build" "stage_error w Prepare = None"
    | (v) "s = Verify" "stage_error w Prepare = None" "stage_error w Build = None"
    | (m) "s = Promote" "stage_error w Prepare = None" "stage_error w Build = None"
        "stage_error w Verify = None"
    using assms(1) unfolding first_failed_cases by (auto split: if_splits)
  then show ?thesis
  proof cases
    case p
    then show ?thesis using assms(2)
      by (simp add: Hardened_All_with_def invoke_def Hardened_Prepare_def psay_def
          stages_through_simps)
  next
    case b
    then show ?thesis using assms(2)
      by (simp add: Hardened_All_with_def invoke_def Hardened_Prepare_def Hardened_Build_def
          psay_def stages_through_simps)
  next
    case v
    then show ?thesis using assms(2)
      by (simp add: Hardened_All_with_def invoke_def Hardened_Prepare_def Hardened_Build_def
          Hardened_Verify_def psay_def stages_through_simps)
  next
    case m
    then show ?thesis using assms(2)
      by (simp add: Hardened_All_with_def invoke_def Hardened_Prepare_def Hardened_Build_def
          Hardened_Verify_def Hardened_Promote_def psay_def stages_through_simps)
  qed
qed

lemma Hardened_All_with_success:
  assumes "first_failed w = None"
  shows "Hardened_All_with c w =
           (let w' = (case fst (c (at_clean w)) of
                        Some e \<Rightarrow> psay (Printf ''cleanup stage warning: %v'' [Str e]) (snd (c (at_clean w)))
                      | None \<Rightarrow> snd (c (at_clean w)))
            in (None, psay (Printf ''Hardened image pipeline completed successfully in %s''
                              [Num (elapsed w')]) w'))"
proof -
  have n: "stage_error w Prepare = None" "stage_error w Build = None"
    "stage_error w Verify = None" "stage_error w Promote = None"
    using assms unfolding first_failed_cases by (auto split: if_splits)
  define w0 where "w0 = psay (Println ''Running full hardened image pipeline...'') w"
  define w1 where "w1 = w0\<lparr>invoked := invoked w0 @ [Prepare]\<rparr>"
  define w2 where "w2 = w1\<lparr>invoked := invoked w1 @ [Build]\<rparr>"
  define w3 where "w3 = w2\<lparr>invoked := invoked w2 @ [Verify]\<rparr>"
  define w4 where "w4 = w3\<lparr>invoked := invoked w3 @ [Promote]\<rparr>"
  have s1: "invoke Prepare Hardened_Prepare w0 = (None, w1)"
    using n by (simp add: invoke_def Hardened_Prepare_def w1_def w0_def psay_def)
  have s2: "invoke Build Hardened_Build w1 = (None, w2)"
    using n by (simp add: invoke_def Hardened_Build_def w2_def w1_def w0_def psay_def)
  have s3: "invoke Verify Hardened_Verify w2 = (None, w3)"
    using n by (simp add: invoke_def Hardened_Verify_def w3_def w2_def w1_def w0_def psay_def)
  have s4: "invoke Promote Hardened_Promote w3 = (None, w4)"
    using n by (simp add: invoke_def Hardened_Promote_def w4_def w3_def w2_def w1_def w0_def psay_def)
  have s5: "invoke Clean c w4 = c (at_clean w)"
    by (simp add: invoke_def at_clean_def gates_def w4_def w3_def w2_def w1_def w0_def psay_def)
  have "Hardened_All_with c w =
          (case c (at_clean w) of
             (cerr, w) \<Rightarrow>
               (let w = (case cerr of
                           Some e \<Rightarrow> psay (Printf ''cleanup stage warning: %v'' [Str e]) w
                         | None \<Rightarrow> w)
                in (None, psay (Printf ''Hardened image pipeline completed successfully in %s''
                                  [Num (elapsed w)]) w)))"
    unfolding Hardened_All_with_def
    by (simp only: Let_def w0_def [symmetric] s1 s2 s3 s4 s5 prod.case option.case)
  then show ?thesis
    by (simp only: split_beta Let_def)
qed

text \<open>
  C3. In \<open>All\<close> the first of Prepare, Build, Verify and Promote that fails ends the
  run: \<open>All\<close> returns the error of that stage under the name of the stage, and no
  later stage is entered, the cleanup included. The cleanup is entered only when the
  four stages have succeeded; then \<open>All\<close> succeeds whatever the cleanup returns, and
  an error of the cleanup is printed as a warning. \<open>All\<close> succeeds exactly when no
  hard gate fails, and \<open>Clean\<close> itself returns no error.
\<close>

theorem Hardened_All_stages:
  "(\<forall>s e. first_failed w = Some s \<and> stage_error w s = Some e \<longrightarrow>
      fst (Hardened_All_with c w) = Some (stage_label s @ e) \<and>
      invoked (snd (Hardened_All_with c w)) = invoked w @ stages_through s \<and>
      Clean \<notin> set (stages_through s)) \<and>
   (first_failed w = None \<longrightarrow>
      fst (Hardened_All_with c w) = None \<and>
      (\<forall>e. fst (c (at_clean w)) = Some e \<longrightarrow>
         Printf ''cleanup stage warning: %v'' [Str e] \<in> set (pstdout (snd (Hardened_All_with c w)))) \<and>
      invoked (snd (Hardened_All w)) = invoked w @ gates @ [Clean]) \<and>
   (first_failed w = None \<longleftrightarrow> fst (Hardened_All w) = None) \<and>
   fst (Hardened_Clean w) = None"
proof -
  have 1: "\<forall>s e. first_failed w = Some s \<and> stage_error w s = Some e \<longrightarrow>
      fst (Hardened_All_with c w) = Some (stage_label s @ e) \<and>
      invoked (snd (Hardened_All_with c w)) = invoked w @ stages_through s \<and>
      Clean \<notin> set (stages_through s)"
    using Hardened_All_with_failure by blast
  have 2: "first_failed w = None \<longrightarrow>
      fst (Hardened_All_with c w) = None \<and>
      (\<forall>e. fst (c (at_clean w)) = Some e \<longrightarrow>
         Printf ''cleanup stage warning: %v'' [Str e] \<in> set (pstdout (snd (Hardened_All_with c w)))) \<and>
      invoked (snd (Hardened_All w)) = invoked w @ gates @ [Clean]"
  proof
    assume a: "first_failed w = None"
    have r: "fst (Hardened_All_with c w) = None"
      unfolding Hardened_All_with_success [OF a] by (simp add: Let_def)
    have p: "\<forall>e. fst (c (at_clean w)) = Some e \<longrightarrow>
         Printf ''cleanup stage warning: %v'' [Str e] \<in> set (pstdout (snd (Hardened_All_with c w)))"
      unfolding Hardened_All_with_success [OF a] by (simp add: Let_def psay_def)
    have i: "invoked (snd (Hardened_All w)) = invoked w @ gates @ [Clean]"
      unfolding Hardened_All_def Hardened_All_with_success [OF a]
      by (simp add: Let_def Hardened_Clean_result Hardened_Clean_invoked psay_def at_clean_def)
    show "fst (Hardened_All_with c w) = None \<and>
      (\<forall>e. fst (c (at_clean w)) = Some e \<longrightarrow>
         Printf ''cleanup stage warning: %v'' [Str e] \<in> set (pstdout (snd (Hardened_All_with c w)))) \<and>
      invoked (snd (Hardened_All w)) = invoked w @ gates @ [Clean]"
      using r p i by (intro conjI)
  qed
  have 3: "first_failed w = None \<longleftrightarrow> fst (Hardened_All w) = None"
  proof
    assume a: "first_failed w = None"
    show "fst (Hardened_All w) = None"
      unfolding Hardened_All_def Hardened_All_with_success [OF a] by (simp add: Let_def)
  next
    assume b: "fst (Hardened_All w) = None"
    show "first_failed w = None"
    proof (rule ccontr)
      assume "first_failed w \<noteq> None"
      then obtain s where s: "first_failed w = Some s" by blast
      then have "stage_error w s \<noteq> None"
        unfolding first_failed_def by (auto simp: find_Some_iff)
      then obtain e where "stage_error w s = Some e" by blast
      then have "fst (Hardened_All w) = Some (stage_label s @ e)"
        unfolding Hardened_All_def using Hardened_All_with_failure [OF s] by blast
      then show False using b by simp
    qed
  qed
  show ?thesis
    using 1 2 3 Hardened_Clean_result by (intro conjI)
qed

theorem Hardened_All_stages_witness:
  "first_failed failing_pworld = Some Verify \<and>
   fst (Hardened_All failing_pworld) = Some ''verification stage failed: image runs as root'' \<and>
   invoked (snd (Hardened_All failing_pworld)) = [Prepare, Build, Verify] \<and>
   first_failed sample_pworld = None \<and>
   fst (failing_clean (at_clean sample_pworld)) = Some ''permission denied'' \<and>
   fst (Hardened_All_with failing_clean sample_pworld) = None \<and>
   Printf ''cleanup stage warning: %v'' [Str ''permission denied'']
     \<in> set (pstdout (snd (Hardened_All_with failing_clean sample_pworld))) \<and>
   invoked (snd (Hardened_All sample_pworld)) = [Prepare, Build, Verify, Promote, Clean]"
proof -
  have f: "first_failed failing_pworld = Some Verify"
    "stage_error failing_pworld Verify = Some ''image runs as root''"
    by (simp_all add: first_failed_def gates_def failing_pworld_def sample_pworld_def)
  have i: "invoked failing_pworld = []" "invoked sample_pworld = []"
    by (simp_all add: failing_pworld_def sample_pworld_def)
  have s: "first_failed sample_pworld = None"
    by (simp add: first_failed_def gates_def sample_pworld_def)
  have c: "fst (failing_clean (at_clean sample_pworld)) = Some ''permission denied''"
    by (simp add: failing_clean_def)
  have "fst (Hardened_All failing_pworld) = Some ''verification stage failed: image runs as root'' \<and>
        invoked (snd (Hardened_All failing_pworld)) = [Prepare, Build, Verify]"
    using Hardened_All_stages [of failing_pworld Hardened_Clean] f i
    by (simp add: Hardened_All_def stages_through_def gates_def)
  moreover have "fst (Hardened_All_with failing_clean sample_pworld) = None \<and>
     Printf ''cleanup stage warning: %v'' [Str ''permission denied'']
       \<in> set (pstdout (snd (Hardened_All_with failing_clean sample_pworld))) \<and>
     invoked (snd (Hardened_All sample_pworld)) = [Prepare, Build, Verify, Promote, Clean]"
    using Hardened_All_stages [of sample_pworld failing_clean] s c i
    by (simp add: gates_def)
  ultimately show ?thesis
    using f s c by simp
qed

text \<open>The verification fails: the cleanup is not entered and the generated file stays.\<close>

theorem Hardened_All_stages_counterexample:
  "fst (Hardened_All failing_pworld) = Some ''verification stage failed: image runs as root'' \<and>
   Clean \<notin> set (invoked (snd (Hardened_All failing_pworld))) \<and>
   outputDockerfile \<in> present (snd (Hardened_All failing_pworld))"
  by (simp add: Hardened_All_def Hardened_All_with_def invoke_def Hardened_Prepare_def
      Hardened_Build_def Hardened_Verify_def psay_def failing_pworld_def sample_pworld_def)

end
